theory Spec2Isabelle
  imports Complex_Main
begin

section \<open>JavaScript numbers\<close>

text \<open>
  SmoothControls computes with JavaScript numbers. Its options hold \<open>Infinity\<close> and
  \<open>-Infinity\<close> (an unbounded azimuth, an unbounded radius), it tests \<open>isFinite\<close>, and a
  division in \<open>adjustOrbit\<close> can yield \<open>Infinity\<close> or \<open>NaN\<close>. A number is therefore one of
  \<open>NaN\<close>, \<open>-Infinity\<close>, a finite value or \<open>Infinity\<close>, and the operators follow IEEE 754 on
  these four cases. Finite values are exact reals: rounding, overflow of finite results
  and the sign of zero are not modelled (a zero divisor is taken as \<open>+0\<close>).
\<close>

datatype num = NaN | NegInf | Fin real | PosInf

instantiation num :: "{uminus, plus, times, inverse, ord}"
begin

fun uminus_num :: "num \<Rightarrow> num" where
  "uminus_num NaN = NaN"
| "uminus_num NegInf = PosInf"
| "uminus_num (Fin a) = Fin (- a)"
| "uminus_num PosInf = NegInf"

fun plus_num :: "num \<Rightarrow> num \<Rightarrow> num" where
  "plus_num (Fin a) (Fin b) = Fin (a + b)"
| "plus_num NaN y = NaN"
| "plus_num x NaN = NaN"
| "plus_num PosInf NegInf = NaN"
| "plus_num NegInf PosInf = NaN"
| "plus_num PosInf y = PosInf"
| "plus_num NegInf y = NegInf"
| "plus_num x PosInf = PosInf"
| "plus_num x NegInf = NegInf"

fun times_num :: "num \<Rightarrow> num \<Rightarrow> num" where
  "times_num (Fin a) (Fin b) = Fin (a * b)"
| "times_num NaN y = NaN"
| "times_num x NaN = NaN"
| "times_num (Fin a) PosInf = (if a = 0 then NaN else if 0 < a then PosInf else NegInf)"
| "times_num (Fin a) NegInf = (if a = 0 then NaN else if 0 < a then NegInf else PosInf)"
| "times_num PosInf (Fin b) = (if b = 0 then NaN else if 0 < b then PosInf else NegInf)"
| "times_num NegInf (Fin b) = (if b = 0 then NaN else if 0 < b then NegInf else PosInf)"
| "times_num PosInf PosInf = PosInf"
| "times_num PosInf NegInf = NegInf"
| "times_num NegInf PosInf = NegInf"
| "times_num NegInf NegInf = PosInf"

fun divide_num :: "num \<Rightarrow> num \<Rightarrow> num" where
  "divide_num (Fin a) (Fin b) =
     (if b = 0 then (if a = 0 then NaN else if 0 < a then PosInf else NegInf)
      else Fin (a / b))"
| "divide_num NaN y = NaN"
| "divide_num x NaN = NaN"
| "divide_num (Fin a) PosInf = Fin 0"
| "divide_num (Fin a) NegInf = Fin 0"
| "divide_num PosInf (Fin b) = (if 0 \<le> b then PosInf else NegInf)"
| "divide_num NegInf (Fin b) = (if 0 \<le> b then NegInf else PosInf)"
| "divide_num PosInf y = NaN"
| "divide_num NegInf y = NaN"

fun inverse_num :: "num \<Rightarrow> num" where
  "inverse_num (Fin b) = (if b = 0 then PosInf else Fin (1 / b))"
| "inverse_num NaN = NaN"
| "inverse_num x = Fin 0"

fun less_num :: "num \<Rightarrow> num \<Rightarrow> bool" where
  "less_num (Fin a) (Fin b) = (a < b)"
| "less_num NaN y = False"
| "less_num x NaN = False"
| "less_num x NegInf = False"
| "less_num PosInf y = False"
| "less_num NegInf y = True"
| "less_num x PosInf = True"

fun less_eq_num :: "num \<Rightarrow> num \<Rightarrow> bool" where
  "less_eq_num (Fin a) (Fin b) = (a \<le> b)"
| "less_eq_num NaN y = False"
| "less_eq_num x NaN = False"
| "less_eq_num NegInf y = True"
| "less_eq_num x PosInf = True"
| "less_eq_num x NegInf = False"
| "less_eq_num PosInf y = False"

instance ..

end

instantiation num :: minus
begin

definition minus_num :: "num \<Rightarrow> num \<Rightarrow> num" where
  "x - y = x + - (y::num)"

instance ..

end

text \<open>\<open>a === b\<close> on numbers: \<open>NaN\<close> equals nothing, itself included.\<close>

definition strictEq :: "num \<Rightarrow> num \<Rightarrow> bool" where
  "strictEq a b = (a \<noteq> NaN \<and> a = b)"

fun isFinite :: "num \<Rightarrow> bool" where
  "isFinite (Fin a) = True"
| "isFinite x = False"

text \<open>\<open>Math.min\<close> and \<open>Math.max\<close> return \<open>NaN\<close> as soon as one argument is \<open>NaN\<close>.\<close>

definition Math_min :: "num \<Rightarrow> num \<Rightarrow> num" where
  "Math_min a b = (if a = NaN \<or> b = NaN then NaN else if b < a then b else a)"

definition Math_max :: "num \<Rightarrow> num \<Rightarrow> num" where
  "Math_max a b = (if a = NaN \<or> b = NaN then NaN else if a < b then b else a)"

fun Math_abs :: "num \<Rightarrow> num" where
  "Math_abs (Fin a) = Fin \<bar>a\<bar>"
| "Math_abs NaN = NaN"
| "Math_abs x = PosInf"

fun Math_sign :: "num \<Rightarrow> num" where
  "Math_sign (Fin a) = Fin (sgn a)"
| "Math_sign NaN = NaN"
| "Math_sign NegInf = Fin (- 1)"
| "Math_sign PosInf = Fin 1"

fun Math_floor :: "num \<Rightarrow> num" where
  "Math_floor (Fin a) = Fin (of_int \<lfloor>a\<rfloor>)"
| "Math_floor x = x"

fun Math_log :: "num \<Rightarrow> num" where
  "Math_log (Fin a) = (if a < 0 then NaN else if a = 0 then NegInf else Fin (ln a))"
| "Math_log PosInf = PosInf"
| "Math_log x = NaN"

fun Math_exp :: "num \<Rightarrow> num" where
  "Math_exp (Fin a) = Fin (exp a)"
| "Math_exp NegInf = Fin 0"
| "Math_exp x = x"

fun Math_sqrt :: "num \<Rightarrow> num" where
  "Math_sqrt (Fin a) = (if a < 0 then NaN else Fin (sqrt a))"
| "Math_sqrt PosInf = PosInf"
| "Math_sqrt x = NaN"

definition Math_PI :: num where
  "Math_PI = Fin pi"

section \<open>Collaborators that are not part of the controller\<close>

text \<open>
  \<open>Spherical\<close> (three.js) is the triple the controller keeps twice, as \<open>spherical\<close> (the
  rendered state) and as \<open>goalSpherical\<close>: \<open>theta\<close> is the azimuth, \<open>phi\<close> the polar angle.
  \<open>new Spherical()\<close> is the triple \<open>(radius 1, phi 0, theta 0)\<close>.
\<close>

record spherical =
  radius :: num
  phi :: num
  theta :: num

definition newSpherical :: spherical where
  "newSpherical = \<lparr>radius = Fin 1, phi = Fin 0, theta = Fin 0\<rparr>"

text \<open>
  Modelled from the spec: the pole margin \<open>\<epsilon>\<close> of \<open>makeSafe\<close>, whose value the source under
  \<open>src/\<close> does not hold; it is the \<open>0.000001\<close> of three.js. The theorems below use only
  \<open>0 < EPS\<close> and \<open>EPS < pi / 8\<close>.
\<close>

definition EPS :: real where
  "EPS = 1 / 1000000"

text \<open>
  Modelled from the spec: \<open>Spherical.makeSafe\<close> is imported from three.js and is not under
  \<open>src/\<close>. The spec: "\<open>makeSafe(spherical)\<close>: clamps \<open>polar\<close> into \<open>(\<epsilon>, \<pi>-\<epsilon>)\<close>". A clamp returns
  the bound it cuts at, so a polar angle below \<open>\<epsilon>\<close> becomes \<open>\<epsilon>\<close> and one above \<open>\<pi> - \<epsilon>\<close> becomes
  \<open>\<pi> - \<epsilon>\<close>; azimuth and radius are kept.
\<close>

definition makeSafe :: "spherical \<Rightarrow> spherical" where
  "makeSafe sp = sp\<lparr>phi := Math_max (Fin EPS) (Math_min (Math_PI - Fin EPS) (phi sp))\<rparr>"

datatype error = ConfigurationError | TypeError

text \<open>
  Modelled from the spec: \<open>clamp\<close> is imported from \<open>../utilities.js\<close>, which is not under
  \<open>src/\<close>. The spec: "\<open>clamp(value, min, max)\<close>: standard clamp; \<open>min > max\<close> is a
  configuration error (reported, not silently swapped)". The report is an exception, which
  every caller below lets through.
\<close>

definition clamp :: "num \<Rightarrow> num \<Rightarrow> num \<Rightarrow> error + num" where
  "clamp v lowerLimit upperLimit =
     (if upperLimit < lowerLimit then Inl ConfigurationError
      else Inr (Math_max lowerLimit (Math_min upperLimit v)))"

text \<open>
  Modelled from the spec: \<open>Damper\<close> and \<open>SETTLING_TIME\<close> are imported from \<open>./Damper.js\<close>, which is
  not under \<open>src/\<close>. The spec: a damper is a "pure function of \<open>(currentValue, goalValue,
  elapsedMillis, naturalFrequencyScale) \<rightarrow> newValue\<close>; stateless across calls", in "four
  independent instances (azimuth, polar, radius, logFov)". The four functions and the
  settling time are parameters of the model; a theorem that needs more of a damper says so
  in a hypothesis.
\<close>

type_synonym damper = "num \<Rightarrow> num \<Rightarrow> num \<Rightarrow> num \<Rightarrow> num"

record dampers =
  thetaDamper :: damper
  phiDamper :: damper
  radiusDamper :: damper
  fovDamper :: damper
  SETTLING_TIME :: num

section \<open>The state of SmoothControls\<close>

record options =
  minimumRadius :: num
  maximumRadius :: num
  minimumPolarAngle :: num
  maximumPolarAngle :: num
  minimumAzimuthalAngle :: num
  maximumAzimuthalAngle :: num
  minimumFieldOfView :: num
  maximumFieldOfView :: num
  interactionPolicy :: string
  touchAction :: string

definition DEFAULT_OPTIONS :: options where
  "DEFAULT_OPTIONS =
     \<lparr>minimumRadius = Fin 0,
      maximumRadius = PosInf,
      minimumPolarAngle = Math_PI / Fin 8,
      maximumPolarAngle = Math_PI - Math_PI / Fin 8,
      minimumAzimuthalAngle = NegInf,
      maximumAzimuthalAngle = PosInf,
      minimumFieldOfView = Fin 10,
      maximumFieldOfView = Fin 45,
      interactionPolicy = ''always-allow'',
      touchAction = ''pan-y''\<rparr>"

text \<open>The argument of \<open>applyOptions\<close>: an object holding any subset of the option keys.\<close>

record partial_options =
  p_minimumRadius :: "num option"
  p_maximumRadius :: "num option"
  p_minimumPolarAngle :: "num option"
  p_maximumPolarAngle :: "num option"
  p_minimumAzimuthalAngle :: "num option"
  p_maximumAzimuthalAngle :: "num option"
  p_minimumFieldOfView :: "num option"
  p_maximumFieldOfView :: "num option"
  p_interactionPolicy :: "string option"
  p_touchAction :: "string option"

definition noOptions :: partial_options where
  "noOptions =
     \<lparr>p_minimumRadius = None, p_maximumRadius = None,
      p_minimumPolarAngle = None, p_maximumPolarAngle = None,
      p_minimumAzimuthalAngle = None, p_maximumAzimuthalAngle = None,
      p_minimumFieldOfView = None, p_maximumFieldOfView = None,
      p_interactionPolicy = None, p_touchAction = None\<rparr>"

fun orKeep :: "'a option \<Rightarrow> 'a \<Rightarrow> 'a" where
  "orKeep None old = old"
| "orKeep (Some v) old = v"

text \<open>\<open>Object.assign(this._options, _options)\<close>.\<close>

definition assignOptions :: "options \<Rightarrow> partial_options \<Rightarrow> options" where
  "assignOptions os p =
     \<lparr>minimumRadius = orKeep (p_minimumRadius p) (minimumRadius os),
      maximumRadius = orKeep (p_maximumRadius p) (maximumRadius os),
      minimumPolarAngle = orKeep (p_minimumPolarAngle p) (minimumPolarAngle os),
      maximumPolarAngle = orKeep (p_maximumPolarAngle p) (maximumPolarAngle os),
      minimumAzimuthalAngle = orKeep (p_minimumAzimuthalAngle p) (minimumAzimuthalAngle os),
      maximumAzimuthalAngle = orKeep (p_maximumAzimuthalAngle p) (maximumAzimuthalAngle os),
      minimumFieldOfView = orKeep (p_minimumFieldOfView p) (minimumFieldOfView os),
      maximumFieldOfView = orKeep (p_maximumFieldOfView p) (maximumFieldOfView os),
      interactionPolicy = orKeep (p_interactionPolicy p) (interactionPolicy os),
      touchAction = orKeep (p_touchAction p) (touchAction os)\<rparr>"

record pointer =
  clientX :: num
  clientY :: num

datatype touch_mode = Rotate | Zoom | Scroll

datatype change_source = USER_INTERACTION | NONE

datatype dispatched_event =
  Change change_source
| PointerChangeStart pointer
| PointerChangeEnd pointer

text \<open>
  The fields of the class, in the order of its constructor. Of the camera the model keeps
  \<open>fov\<close> (its position and rotation are written by three.js from \<open>spherical\<close> and read by
  nothing here); of the element it keeps the cursor, \<open>clientHeight\<close>, whether the element
  is the active element of its root node, and whether \<open>onWheel\<close> is registered on it (the
  other handlers are registered exactly while \<open>_interactionEnabled\<close> holds). \<open>dispatched\<close> is
  the list of the events handed to \<open>dispatchEvent\<close>, the latest first. \<open>lastTouches\<close> is
  \<open>undefined\<close> (\<open>None\<close>) until the first touch start.
\<close>

record controls =
  camera_fov :: num
  element_cursor :: string
  element_clientHeight :: num
  element_isActive :: bool
  element_listensWheel :: bool
  sensitivity :: num
  interactionEnabled :: bool
  disableZoom :: bool
  isUserChange :: bool
  isUserPointing :: bool
  spherical :: spherical
  goalSpherical :: spherical
  logFov :: num
  goalLogFov :: num
  pointerIsDown :: bool
  lastPointerPosition :: pointer
  touchMode :: touch_mode
  touchDecided :: bool
  lastTouches :: "pointer list option"
  opts :: options
  dispatched :: "dispatched_event list"

text \<open>
  A method either returns a value or throws; in both cases it leaves a state behind, and
  what it wrote before throwing stays written.
\<close>

datatype 'a outcome = Returned 'a controls | Threw error controls

fun final :: "'a outcome \<Rightarrow> controls" where
  "final (Returned a s) = s"
| "final (Threw e s) = s"

fun andThen :: "'a outcome \<Rightarrow> ('a \<Rightarrow> controls \<Rightarrow> 'b outcome) \<Rightarrow> 'b outcome" where
  "andThen (Returned a s) f = f a s"
| "andThen (Threw e s) f = Threw e s"

fun returned :: "'a outcome \<Rightarrow> bool" where
  "returned (Returned a s) = True"
| "returned (Threw e s) = False"

definition dispatchEvent :: "dispatched_event \<Rightarrow> controls \<Rightarrow> controls" where
  "dispatchEvent ev s = s\<lparr>dispatched := ev # dispatched s\<rparr>"

section \<open>SmoothControls\<close>

definition KEYBOARD_ORBIT_INCREMENT :: num where
  "KEYBOARD_ORBIT_INCREMENT = Math_PI / Fin 8"

definition ZOOM_SENSITIVITY :: num where
  "ZOOM_SENSITIVITY = Fin (4 / 100)"

text \<open>\<open>KeyCode\<close>: the key codes the controller answers to.\<close>

definition PAGE_UP :: nat where "PAGE_UP = 33"

definition PAGE_DOWN :: nat where "PAGE_DOWN = 34"

definition LEFT :: nat where "LEFT = 37"

definition UP :: nat where "UP = 38"

definition RIGHT :: nat where "RIGHT = 39"

definition DOWN :: nat where "DOWN = 40"

definition wrapAngle :: "num \<Rightarrow> num" where
  "wrapAngle radians =
     (let normalized = (radians + Math_PI) / (Fin 2 * Math_PI);
          wrapped = normalized - Math_floor normalized
      in wrapped * Fin 2 * Math_PI - Math_PI)"

definition canInteract :: "controls \<Rightarrow> bool" where
  "canInteract s =
     (if interactionPolicy (opts s) = ''allow-when-focused'' then element_isActive s
      else interactionPolicy (opts s) = ''always-allow'')"

definition setOrbit :: "controls \<Rightarrow> num option \<Rightarrow> num option \<Rightarrow> num option \<Rightarrow> bool outcome" where
  "setOrbit s goalTheta' goalPhi' goalRadius' =
     (let goalTheta = orKeep goalTheta' (theta (goalSpherical s));
          goalPhi = orKeep goalPhi' (phi (goalSpherical s));
          goalRadius = orKeep goalRadius' (radius (goalSpherical s));
          th = theta (goalSpherical s);
          ph = phi (goalSpherical s);
          r = radius (goalSpherical s)
      in case clamp goalTheta (minimumAzimuthalAngle (opts s)) (maximumAzimuthalAngle (opts s)) of
           Inl e \<Rightarrow> Threw e s
         | Inr nextTheta \<Rightarrow>
             (let s1 = (if \<not> isFinite (minimumAzimuthalAngle (opts s)) \<and>
                           \<not> isFinite (maximumAzimuthalAngle (opts s))
                        then s\<lparr>spherical := (spherical s)
                               \<lparr>theta := wrapAngle (theta (spherical s) - nextTheta) + nextTheta\<rparr>\<rparr>
                        else s)
              in case clamp goalPhi (minimumPolarAngle (opts s)) (maximumPolarAngle (opts s)) of
                   Inl e \<Rightarrow> Threw e s1
                 | Inr nextPhi \<Rightarrow>
                     (case clamp goalRadius (minimumRadius (opts s)) (maximumRadius (opts s)) of
                        Inl e \<Rightarrow> Threw e s1
                      | Inr nextRadius \<Rightarrow>
                          if strictEq nextTheta th \<and> strictEq nextPhi ph \<and> strictEq nextRadius r
                          then Returned False s1
                          else Returned True
                                 (s1\<lparr>goalSpherical :=
                                       makeSafe \<lparr>radius = nextRadius, phi = nextPhi, theta = nextTheta\<rparr>,
                                     isUserChange := False\<rparr>))))"

definition setRadius :: "controls \<Rightarrow> num \<Rightarrow> unit outcome" where
  "setRadius s r =
     andThen (setOrbit (s\<lparr>goalSpherical := (goalSpherical s)\<lparr>radius := r\<rparr>\<rparr>) None None None)
       (\<lambda>changed s'. Returned () s')"

definition setFieldOfView :: "controls \<Rightarrow> num \<Rightarrow> unit outcome" where
  "setFieldOfView s fov =
     (case clamp fov (minimumFieldOfView (opts s)) (maximumFieldOfView (opts s)) of
        Inl e \<Rightarrow> Threw e s
      | Inr fov' \<Rightarrow> Returned () (s\<lparr>goalLogFov := Math_log fov'\<rparr>))"

definition applyOptions :: "controls \<Rightarrow> partial_options \<Rightarrow> unit outcome" where
  "applyOptions s p =
     andThen (setOrbit (s\<lparr>opts := assignOptions (opts s) p\<rparr>) None None None)
       (\<lambda>changed s'. setFieldOfView s' (Math_exp (goalLogFov s')))"

definition adjustOrbit :: "controls \<Rightarrow> num \<Rightarrow> num \<Rightarrow> num \<Rightarrow> unit outcome" where
  "adjustOrbit s deltaTheta deltaPhi deltaZoom =
     (let th = theta (goalSpherical s);
          ph = phi (goalSpherical s);
          r = radius (goalSpherical s);
          dTheta = theta (spherical s) - th;
          dThetaLimit = Math_PI - Fin (1 / 1000)
      in case clamp deltaTheta (- dThetaLimit - dTheta) (dThetaLimit - dTheta) of
           Inl e \<Rightarrow> Threw e s
         | Inr clamped \<Rightarrow>
             (let goalTheta = th - clamped;
                  goalPhi = ph - deltaPhi;
                  deltaRatio =
                    (if strictEq deltaZoom (Fin 0) then Fin 0
                     else ((if Fin 0 < deltaZoom then maximumRadius (opts s)
                            else minimumRadius (opts s)) - r) /
                          (Math_log (if Fin 0 < deltaZoom then maximumFieldOfView (opts s)
                                     else minimumFieldOfView (opts s)) - goalLogFov s));
                  goalRadius = r + deltaZoom *
                    Math_min (if isFinite deltaRatio then deltaRatio else PosInf)
                      (maximumRadius (opts s) - minimumRadius (opts s))
              in andThen (setOrbit s (Some goalTheta) (Some goalPhi) (Some goalRadius))
                   (\<lambda>changed s'.
                      if \<not> strictEq deltaZoom (Fin 0)
                      then setFieldOfView s' (Math_exp (goalLogFov s' + deltaZoom))
                      else Returned () s')))"

definition isStationary :: "controls \<Rightarrow> bool" where
  "isStationary s =
     (strictEq (theta (goalSpherical s)) (theta (spherical s)) \<and>
      strictEq (phi (goalSpherical s)) (phi (spherical s)) \<and>
      strictEq (radius (goalSpherical s)) (radius (spherical s)) \<and>
      strictEq (goalLogFov s) (logFov s))"

definition moveCamera :: "controls \<Rightarrow> controls" where
  "moveCamera s =
     (let s1 = s\<lparr>spherical := makeSafe (spherical s)\<rparr>;
          s2 = (if \<not> strictEq (camera_fov s1) (Math_exp (logFov s1))
                then s1\<lparr>camera_fov := Math_exp (logFov s1)\<rparr> else s1);
          source = (if isUserChange s2 then USER_INTERACTION else NONE)
      in dispatchEvent (Change source) s2)"

definition update :: "dampers \<Rightarrow> controls \<Rightarrow> num \<Rightarrow> num \<Rightarrow> controls" where
  "update D s time delta =
     (if isStationary s then s
      else
        (let dTheta = theta (spherical s) - theta (goalSpherical s);
             s1 = (if Math_PI < Math_abs dTheta \<and>
                      \<not> isFinite (minimumAzimuthalAngle (opts s)) \<and>
                      \<not> isFinite (maximumAzimuthalAngle (opts s))
                   then s\<lparr>spherical := (spherical s)
                          \<lparr>theta := theta (spherical s) - Math_sign dTheta * Fin 2 * Math_PI\<rparr>\<rparr>
                   else s);
             s2 = s1\<lparr>spherical := (spherical s1)
                    \<lparr>theta := thetaDamper D (theta (spherical s1)) (theta (goalSpherical s1))
                                delta Math_PI\<rparr>\<rparr>;
             s3 = s2\<lparr>spherical := (spherical s2)
                    \<lparr>phi := phiDamper D (phi (spherical s2)) (phi (goalSpherical s2))
                              delta (maximumPolarAngle (opts s))\<rparr>\<rparr>;
             s4 = s3\<lparr>spherical := (spherical s3)
                    \<lparr>radius := radiusDamper D (radius (spherical s3)) (radius (goalSpherical s3))
                                 delta (maximumRadius (opts s))\<rparr>\<rparr>;
             s5 = s4\<lparr>logFov := fovDamper D (logFov s4) (goalLogFov s4) delta (Fin 1)\<rparr>
         in moveCamera s5))"

definition jumpToGoal :: "dampers \<Rightarrow> controls \<Rightarrow> controls" where
  "jumpToGoal D s = update D s (Fin 0) (SETTLING_TIME D)"

definition userAdjustOrbit :: "controls \<Rightarrow> num \<Rightarrow> num \<Rightarrow> num \<Rightarrow> unit outcome" where
  "userAdjustOrbit s deltaTheta deltaPhi deltaZoom =
     andThen (adjustOrbit s (deltaTheta * sensitivity s) (deltaPhi * sensitivity s) deltaZoom)
       (\<lambda>u s'. Returned () (dispatchEvent (Change USER_INTERACTION) (s'\<lparr>isUserChange := True\<rparr>)))"

definition pixelLengthToSphericalAngle :: "controls \<Rightarrow> num \<Rightarrow> num" where
  "pixelLengthToSphericalAngle s pixelLength =
     Fin 2 * Math_PI * pixelLength / element_clientHeight s"

definition twoTouchDistance :: "pointer \<Rightarrow> pointer \<Rightarrow> num" where
  "twoTouchDistance touchOne touchTwo =
     (let xDelta = clientX touchTwo - clientX touchOne;
          yDelta = clientY touchTwo - clientY touchOne
      in Math_sqrt (xDelta * xDelta + yDelta * yDelta))"

definition handleSinglePointerMove :: "controls \<Rightarrow> pointer \<Rightarrow> unit outcome" where
  "handleSinglePointerMove s p =
     (let deltaTheta = pixelLengthToSphericalAngle s (clientX p - clientX (lastPointerPosition s));
          deltaPhi = pixelLengthToSphericalAngle s (clientY p - clientY (lastPointerPosition s));
          s1 = s\<lparr>lastPointerPosition := \<lparr>clientX = clientX p, clientY = clientY p\<rparr>\<rparr>;
          s2 = (if isUserPointing s1 = False
                then dispatchEvent (PointerChangeStart p) (s1\<lparr>isUserPointing := True\<rparr>)
                else s1)
      in userAdjustOrbit s2 deltaTheta deltaPhi (Fin 0))"

definition handleSinglePointerDown :: "controls \<Rightarrow> pointer \<Rightarrow> controls" where
  "handleSinglePointerDown s p =
     s\<lparr>lastPointerPosition := \<lparr>clientX = clientX p, clientY = clientY p\<rparr>,
       element_cursor := ''grabbing''\<rparr>"

text \<open>
  A pointer event is a mouse event, which is its own pointer, or a touch event (its type
  matches \<open>TOUCH_EVENT_RE\<close>) with its list \<open>touches\<close>. \<open>touches[0]\<close> of an empty list is
  \<open>undefined\<close>, and reading its coordinates throws a \<open>TypeError\<close>. \<open>preventDefault\<close> acts on
  the event and on nothing of the controller; the model leaves it out.
\<close>

datatype pointer_event = Mouse pointer | Touch "pointer list"

definition onPointerMove :: "controls \<Rightarrow> pointer_event \<Rightarrow> unit outcome" where
  "onPointerMove s event =
     (if \<not> pointerIsDown s \<or> \<not> canInteract s then Returned () s
      else case event of
        Mouse p \<Rightarrow> handleSinglePointerMove s p
      | Touch touches \<Rightarrow>
          (case touchMode s of
             Zoom \<Rightarrow>
               (case lastTouches s of
                  None \<Rightarrow> Threw TypeError s
                | Some lastT \<Rightarrow>
                    andThen
                      (if 1 < length lastT \<and> 1 < length touches
                       then (let lastTouchDistance = twoTouchDistance (lastT ! 0) (lastT ! 1);
                                 touchDistance = twoTouchDistance (touches ! 0) (touches ! 1);
                                 deltaZoom = ZOOM_SENSITIVITY * (lastTouchDistance - touchDistance)
                                               / Fin 10
                             in userAdjustOrbit s (Fin 0) (Fin 0) deltaZoom)
                       else Returned () s)
                      (\<lambda>u s'. Returned () (s'\<lparr>lastTouches := Some touches\<rparr>)))
           | Rotate \<Rightarrow>
               (if \<not> touchDecided s \<and> touchAction (opts s) \<noteq> ''none''
                then (let s1 = s\<lparr>touchDecided := True\<rparr>
                      in case touches of
                           [] \<Rightarrow> Threw TypeError s1
                         | t # rest \<Rightarrow>
                             (let dx = Math_abs (clientX t - clientX (lastPointerPosition s1));
                                  dy = Math_abs (clientY t - clientY (lastPointerPosition s1))
                              in if (touchAction (opts s1) = ''pan-y'' \<and> dx < dy) \<or>
                                    (touchAction (opts s1) = ''pan-x'' \<and> dy < dx)
                                 then Returned () (s1\<lparr>touchMode := Scroll\<rparr>)
                                 else andThen (handleSinglePointerMove s1 t)
                                        (\<lambda>u s'. Returned () (s'\<lparr>lastTouches := Some touches\<rparr>))))
                else (case touches of
                        [] \<Rightarrow> Threw TypeError s
                      | t # rest \<Rightarrow>
                          andThen (handleSinglePointerMove s t)
                            (\<lambda>u s'. Returned () (s'\<lparr>lastTouches := Some touches\<rparr>))))
           | Scroll \<Rightarrow> Returned () s))"

definition onPointerDown :: "controls \<Rightarrow> pointer_event \<Rightarrow> unit outcome" where
  "onPointerDown s event =
     (let s1 = s\<lparr>pointerIsDown := True, isUserPointing := False\<rparr>
      in case event of
           Mouse p \<Rightarrow> Returned () (handleSinglePointerDown s1 p)
         | Touch touches \<Rightarrow>
             (let s2 = s1\<lparr>touchDecided := False\<rparr>
              in if length touches = 2
                 then Returned ()
                        (s2\<lparr>touchMode := (if disableZoom s2 then Scroll else Zoom),
                            lastTouches := Some touches\<rparr>)
                 else (case touches of
                         [] \<Rightarrow> Threw TypeError (s2\<lparr>touchMode := Rotate\<rparr>)
                       | t # rest \<Rightarrow>
                           Returned ()
                             ((handleSinglePointerDown (s2\<lparr>touchMode := Rotate\<rparr>) t)
                                \<lparr>lastTouches := Some touches\<rparr>))))"

definition onPointerUp :: "controls \<Rightarrow> controls" where
  "onPointerUp s =
     (let s1 = s\<lparr>element_cursor := ''grab'', pointerIsDown := False\<rparr>
      in if isUserPointing s1
         then dispatchEvent (PointerChangeEnd (lastPointerPosition s1)) s1
         else s1)"

text \<open>A wheel event: \<open>deltaY\<close> and \<open>deltaMode\<close>.\<close>

definition onWheel :: "controls \<Rightarrow> num \<Rightarrow> num \<Rightarrow> unit outcome" where
  "onWheel s deltaY deltaMode =
     (if \<not> canInteract s then Returned () s
      else (let deltaZoom = deltaY * (if strictEq deltaMode (Fin 1) then Fin 18 else Fin 1)
                              * ZOOM_SENSITIVITY / Fin 30
            in userAdjustOrbit s (Fin 0) (Fin 0) deltaZoom))"

text \<open>A key event: its \<open>keyCode\<close>.\<close>

definition onKeyDown :: "controls \<Rightarrow> nat \<Rightarrow> unit outcome" where
  "onKeyDown s keyCode =
     (if keyCode = PAGE_UP then userAdjustOrbit s (Fin 0) (Fin 0) ZOOM_SENSITIVITY
      else if keyCode = PAGE_DOWN
        then userAdjustOrbit s (Fin 0) (Fin 0) (Fin (- 1) * ZOOM_SENSITIVITY)
      else if keyCode = UP then userAdjustOrbit s (Fin 0) (- KEYBOARD_ORBIT_INCREMENT) (Fin 0)
      else if keyCode = DOWN then userAdjustOrbit s (Fin 0) KEYBOARD_ORBIT_INCREMENT (Fin 0)
      else if keyCode = LEFT then userAdjustOrbit s (- KEYBOARD_ORBIT_INCREMENT) (Fin 0) (Fin 0)
      else if keyCode = RIGHT then userAdjustOrbit s KEYBOARD_ORBIT_INCREMENT (Fin 0) (Fin 0)
      else Returned () s)"

text \<open>
  \<open>enableInteraction\<close> and \<open>disableInteraction\<close> register and remove the handlers; the
  setter of \<open>disableZoom\<close> removes or registers \<open>onWheel\<close> alone.
\<close>

definition enableInteraction :: "controls \<Rightarrow> controls" where
  "enableInteraction s =
     (if interactionEnabled s = False
      then s\<lparr>element_listensWheel := (if \<not> disableZoom s then True else element_listensWheel s),
             element_cursor := ''grab'',
             interactionEnabled := True\<rparr>
      else s)"

definition disableInteraction :: "controls \<Rightarrow> controls" where
  "disableInteraction s =
     (if interactionEnabled s = True
      then s\<lparr>element_listensWheel := (if \<not> disableZoom s then False else element_listensWheel s),
             element_cursor := [],
             interactionEnabled := False\<rparr>
      else s)"

definition set_disableZoom :: "controls \<Rightarrow> bool \<Rightarrow> controls" where
  "set_disableZoom s disable =
     (if disableZoom s \<noteq> disable
      then s\<lparr>disableZoom := disable,
             element_listensWheel := (if disable = True then False else True)\<rparr>
      else s)"

text \<open>
  The events of the element and of the window, and their delivery: an event reaches its
  handler when the handler is registered. A wheel event carries \<open>deltaY\<close> and \<open>deltaMode\<close>, a
  key event its \<open>keyCode\<close>.
\<close>

datatype input_event =
  MouseMove pointer
| MouseDown pointer
| MouseUp
| TouchStart "pointer list"
| TouchMove "pointer list"
| TouchEnd
| WheelEvent num num
| KeyDown nat

fun handler :: "controls \<Rightarrow> input_event \<Rightarrow> unit outcome" where
  "handler s (MouseMove p) = onPointerMove s (Mouse p)"
| "handler s (MouseDown p) = onPointerDown s (Mouse p)"
| "handler s MouseUp = Returned () (onPointerUp s)"
| "handler s (TouchStart touches) = onPointerDown s (Touch touches)"
| "handler s (TouchMove touches) = onPointerMove s (Touch touches)"
| "handler s TouchEnd = Returned () (onPointerUp s)"
| "handler s (WheelEvent deltaY deltaMode) = onWheel s deltaY deltaMode"
| "handler s (KeyDown keyCode) = onKeyDown s keyCode"

fun registered :: "controls \<Rightarrow> input_event \<Rightarrow> bool" where
  "registered s (WheelEvent deltaY deltaMode) = element_listensWheel s"
| "registered s event = interactionEnabled s"

definition deliver :: "controls \<Rightarrow> input_event \<Rightarrow> unit outcome" where
  "deliver s event = (if registered s event then handler s event else Returned () s)"

text \<open>
  The constructor, for a camera of the given \<open>fov\<close> and an element of the given height
  that is or is not the active element: the field initialisers, then
  \<open>setOrbit(0, Math.PI / 2, 1)\<close>, \<open>setFieldOfView(100)\<close> and \<open>jumpToGoal()\<close>.
\<close>

definition initialFields :: "num \<Rightarrow> num \<Rightarrow> bool \<Rightarrow> controls" where
  "initialFields fov height active =
     \<lparr>camera_fov = fov,
      element_cursor = [],
      element_clientHeight = height,
      element_isActive = active,
      element_listensWheel = False,
      sensitivity = Fin 1,
      interactionEnabled = False,
      disableZoom = False,
      isUserChange = False,
      isUserPointing = False,
      spherical = newSpherical,
      goalSpherical = newSpherical,
      logFov = Math_log (maximumFieldOfView DEFAULT_OPTIONS),
      goalLogFov = Math_log (maximumFieldOfView DEFAULT_OPTIONS),
      pointerIsDown = False,
      lastPointerPosition = \<lparr>clientX = Fin 0, clientY = Fin 0\<rparr>,
      touchMode = Rotate,
      touchDecided = False,
      lastTouches = None,
      opts = DEFAULT_OPTIONS,
      dispatched = []\<rparr>"

definition constructor :: "dampers \<Rightarrow> num \<Rightarrow> num \<Rightarrow> bool \<Rightarrow> unit outcome" where
  "constructor D fov height active =
     andThen (setOrbit (initialFields fov height active)
                (Some (Fin 0)) (Some (Math_PI / Fin 2)) (Some (Fin 1)))
       (\<lambda>changed s1. andThen (setFieldOfView s1 (Fin 100))
          (\<lambda>u s2. Returned () (jumpToGoal D s2)))"

section \<open>Example states\<close>

text \<open>
  A damper that has run for the settling time is at its goal: the dampers of the examples
  return the goal. The controller built with them by \<open>constructor\<close>, for a camera of
  \<open>fov\<close> 45 and an element 600 pixels high that is not the active element, is \<open>atRest\<close>
  (lemma \<open>constructor_atRest\<close>).
\<close>

definition settledDampers :: dampers where
  "settledDampers =
     \<lparr>thetaDamper = (\<lambda>x xGoal t n. xGoal), phiDamper = (\<lambda>x xGoal t n. xGoal),
      radiusDamper = (\<lambda>x xGoal t n. xGoal), fovDamper = (\<lambda>x xGoal t n. xGoal),
      SETTLING_TIME = Fin 10000\<rparr>"

definition atRest :: controls where
  "atRest =
     \<lparr>camera_fov = Fin 45,
      element_cursor = [],
      element_clientHeight = Fin 600,
      element_isActive = False,
      element_listensWheel = False,
      sensitivity = Fin 1,
      interactionEnabled = False,
      disableZoom = False,
      isUserChange = False,
      isUserPointing = False,
      spherical = \<lparr>radius = Fin 1, phi = Fin (pi / 2), theta = Fin 0\<rparr>,
      goalSpherical = \<lparr>radius = Fin 1, phi = Fin (pi / 2), theta = Fin 0\<rparr>,
      logFov = Fin (ln 45),
      goalLogFov = Fin (ln 45),
      pointerIsDown = False,
      lastPointerPosition = \<lparr>clientX = Fin 0, clientY = Fin 0\<rparr>,
      touchMode = Rotate,
      touchDecided = False,
      lastTouches = None,
      opts = DEFAULT_OPTIONS,
      dispatched = [Change NONE]\<rparr>"

section \<open>Predicates of the claims\<close>

definition inHalfOpenLeft :: "num \<Rightarrow> bool" where
  "inHalfOpenLeft a = (Fin (- pi) < a \<and> a \<le> Fin pi)"

text \<open>
  A touch gesture after its start is a list of touch-move events, each with its \<open>touches\<close>.
  \<open>touchMoves\<close> is the state they leave behind (an event whose handler throws leaves what
  the handler had written); \<open>modeChanges\<close> counts the events that change \<open>touchMode\<close>.
\<close>

fun touchMoves :: "controls \<Rightarrow> pointer list list \<Rightarrow> controls" where
  "touchMoves s [] = s"
| "touchMoves s (t # ts) = touchMoves (final (onPointerMove s (Touch t))) ts"

fun modeChanges :: "controls \<Rightarrow> pointer list list \<Rightarrow> nat" where
  "modeChanges s [] = 0"
| "modeChanges s (t # ts) =
     (if touchMode (final (onPointerMove s (Touch t))) \<noteq> touchMode s then 1 else 0)
       + modeChanges (final (onPointerMove s (Touch t))) ts"

definition gesture :: "controls \<Rightarrow> touch_mode \<times> bool" where
  "gesture s = (touchMode s, touchDecided s)"

text \<open>
  \<open>startMode\<close> is the mode \<open>onPointerDown\<close> gives a gesture that starts with the given
  touches. A gesture is \<open>undecided\<close> where \<open>onPointerMove\<close> reaches the test of the touch
  intent: the pointer is down, \<open>canInteract\<close> holds, the mode is \<open>rotate\<close>, nothing was
  decided yet and \<open>touchAction\<close> is not \<open>none\<close>. \<open>alongPassThroughAxis\<close> is that test: the
  touch has moved, from the last pointer position, further along the axis that
  \<open>touchAction\<close> leaves to the page than along the other.
\<close>

definition startMode :: "controls \<Rightarrow> pointer list \<Rightarrow> touch_mode" where
  "startMode s touches =
     (if length touches = 2 then (if disableZoom s then Scroll else Zoom) else Rotate)"

definition undecided :: "controls \<Rightarrow> bool" where
  "undecided s =
     (pointerIsDown s \<and> canInteract s \<and> touchMode s = Rotate \<and> \<not> touchDecided s \<and>
      touchAction (opts s) \<noteq> ''none'')"

definition alongPassThroughAxis :: "controls \<Rightarrow> pointer \<Rightarrow> bool" where
  "alongPassThroughAxis s t =
     (let dx = Math_abs (clientX t - clientX (lastPointerPosition s));
          dy = Math_abs (clientY t - clientY (lastPointerPosition s))
      in (touchAction (opts s) = ''pan-y'' \<and> dx < dy) \<or>
         (touchAction (opts s) = ''pan-x'' \<and> dy < dx))"

text \<open>
  Interaction is enabled on the controller at rest (\<open>touchAction\<close> is \<open>pan-y\<close>) and one
  finger is put down at \<open>(100, 100)\<close>: \<open>touchStarted\<close>. In \<open>scrollGesture\<close> the finger has
  then moved down to \<open>(100, 150)\<close>.
\<close>

definition touchStarted :: controls where
  "touchStarted =
     final (deliver (enableInteraction atRest)
              (TouchStart [\<lparr>clientX = Fin 100, clientY = Fin 100\<rparr>]))"

definition scrollGesture :: controls where
  "scrollGesture =
     final (deliver
       (final (deliver (enableInteraction atRest)
                 (TouchStart [\<lparr>clientX = Fin 100, clientY = Fin 100\<rparr>])))
       (TouchMove [\<lparr>clientX = Fin 100, clientY = Fin 150\<rparr>]))"

text \<open>
  \<open>polarZero\<close>: the controller at rest after \<open>applyOptions({minimumPolarAngle: 0})\<close>.
  \<open>focusGated\<close>: the controller at rest after \<open>enableInteraction()\<close> and
  \<open>applyOptions({interactionPolicy: 'allow-when-focused'})\<close>; its element is not the active
  element.
\<close>

definition polarZero :: controls where
  "polarZero = final (applyOptions atRest (noOptions\<lparr>p_minimumPolarAngle := Some (Fin 0)\<rparr>))"

definition focusGated :: controls where
  "focusGated =
     final (applyOptions (enableInteraction atRest)
              (noOptions\<lparr>p_interactionPolicy := Some ''allow-when-focused''\<rparr>))"

text \<open>
  \<open>goalWithinPi\<close>: the goal azimuth is at most \<open>\<pi>\<close> away from the rendered azimuth.
  \<open>dThetaLimit\<close> is the constant of that name in \<open>adjustOrbit\<close>, \<open>Math.PI - 0.001\<close>.
  \<open>boundedAzimuth\<close>: the controller at rest after
  \<open>applyOptions({minimumAzimuthalAngle: 10, maximumAzimuthalAngle: 20})\<close>; the goal azimuth
  is clamped to \<open>10\<close>, the rendered azimuth is still \<open>0\<close>. \<open>boundedNear\<close>: the same with the
  bounds \<open>1\<close> and \<open>2\<close>; the goal azimuth is clamped to \<open>1\<close>.
\<close>

definition goalWithinPi :: "controls \<Rightarrow> bool" where
  "goalWithinPi s =
     (case (theta (goalSpherical s), theta (spherical s)) of
        (Fin g, Fin c) \<Rightarrow> \<bar>g - c\<bar> \<le> pi
      | _ \<Rightarrow> False)"

definition dThetaLimit :: real where
  "dThetaLimit = pi - 1 / 1000"

definition boundedAzimuth :: controls where
  "boundedAzimuth =
     final (applyOptions atRest
       (noOptions\<lparr>p_minimumAzimuthalAngle := Some (Fin 10),
                  p_maximumAzimuthalAngle := Some (Fin 20)\<rparr>))"

definition boundedNear :: controls where
  "boundedNear =
     final (applyOptions atRest
       (noOptions\<lparr>p_minimumAzimuthalAngle := Some (Fin 1),
                  p_maximumAzimuthalAngle := Some (Fin 2)\<rparr>))"

text \<open>
  \<open>specZoom\<close>: the controller at rest after \<open>applyOptions({maximumRadius: 2})\<close>: radius
  \<open>1\<close>, field of view \<open>45\<close>, \<open>maximumRadius = 2\<close>, \<open>minimumFieldOfView = 10\<close>.
  \<open>zoomedOutAt15\<close>: the same after \<open>setRadius(2)\<close> and \<open>setFieldOfView(15)\<close>.
  \<open>zoomInSynchronous s s'\<close>: if in \<open>s'\<close> the goal field of view is at its minimum, then the goal
  radius is at its minimum, or is what it was in \<open>s\<close>.
  \<open>zoomRadiusAim\<close> and \<open>zoomLogFovAim\<close> are the extremes \<open>adjustOrbit\<close> aims at for a zoom
  delta: \<open>deltaZoom > 0 ? maximumRadius : minimumRadius\<close> and
  \<open>Math.log(deltaZoom > 0 ? maximumFieldOfView : minimumFieldOfView)\<close>. \<open>zoomRatio\<close> is its
  \<open>deltaRatio\<close> for a zoom delta other than \<open>0\<close>, what is left of the radius over what is
  left of \<open>logFov\<close>, and \<open>zoomCap\<close> the cap \<open>maximumRadius - minimumRadius\<close> it puts on the
  ratio.
\<close>

definition specZoom :: controls where
  "specZoom = final (applyOptions atRest (noOptions\<lparr>p_maximumRadius := Some (Fin 2)\<rparr>))"

definition zoomedOutAt15 :: controls where
  "zoomedOutAt15 = final (setFieldOfView (final (setRadius specZoom (Fin 2))) (Fin 15))"

definition zoomInSynchronous :: "controls \<Rightarrow> controls \<Rightarrow> bool" where
  "zoomInSynchronous s s' =
     (strictEq (goalLogFov s') (Math_log (minimumFieldOfView (opts s'))) \<longrightarrow>
        strictEq (radius (goalSpherical s')) (minimumRadius (opts s')) \<or>
        strictEq (radius (goalSpherical s')) (radius (goalSpherical s)))"

definition zoomRadiusAim :: "num \<Rightarrow> options \<Rightarrow> num" where
  "zoomRadiusAim deltaZoom os =
     (if Fin 0 < deltaZoom then maximumRadius os else minimumRadius os)"

definition zoomLogFovAim :: "num \<Rightarrow> options \<Rightarrow> num" where
  "zoomLogFovAim deltaZoom os =
     Math_log (if Fin 0 < deltaZoom then maximumFieldOfView os else minimumFieldOfView os)"

definition zoomRatio :: "controls \<Rightarrow> num \<Rightarrow> num" where
  "zoomRatio s deltaZoom =
     (zoomRadiusAim deltaZoom (opts s) - radius (goalSpherical s)) /
     (zoomLogFovAim deltaZoom (opts s) - goalLogFov s)"

definition zoomCap :: "controls \<Rightarrow> num" where
  "zoomCap s = maximumRadius (opts s) - minimumRadius (opts s)"

text \<open>
  \<open>noOvershoot d\<close>: on finite values the damper \<open>d\<close> returns a finite value between the
  current value and the goal (the spec: the filter "never oscillates or overshoots").
  \<open>halfwayDampers\<close> go half of the way at each step. \<open>seamState\<close> is the state of the spec's
  example: rendered azimuth \<open>3.0\<close>, goal azimuth \<open>-3.0\<close>, azimuth unbounded.
\<close>

definition noOvershoot :: "damper \<Rightarrow> bool" where
  "noOvershoot d =
     (\<forall>x g t n. \<exists>y. d (Fin x) (Fin g) t n = Fin y \<and> min x g \<le> y \<and> y \<le> max x g)"

definition halfwayDampers :: dampers where
  "halfwayDampers =
     \<lparr>thetaDamper = (\<lambda>x xGoal t n. (x + xGoal) / Fin 2),
      phiDamper = (\<lambda>x xGoal t n. (x + xGoal) / Fin 2),
      radiusDamper = (\<lambda>x xGoal t n. (x + xGoal) / Fin 2),
      fovDamper = (\<lambda>x xGoal t n. (x + xGoal) / Fin 2),
      SETTLING_TIME = Fin 10000\<rparr>"

definition seamState :: controls where
  "seamState =
     atRest\<lparr>spherical := \<lparr>radius = Fin 1, phi = Fin (pi / 2), theta = Fin 3\<rparr>,
            goalSpherical := \<lparr>radius = Fin 1, phi = Fin (pi / 2), theta = Fin (- 3)\<rparr>\<rparr>"

text \<open>
  \<open>orbitBoundsInverted\<close>: \<open>min > max\<close> on the azimuth, the polar angle or the radius;
  \<open>boundsInverted\<close>: on any of the four bounded axes. \<open>invertedRadius\<close> is the partial
  configuration \<open>{minimumRadius: 5, maximumRadius: 2}\<close>.
\<close>

definition orbitBoundsInverted :: "options \<Rightarrow> bool" where
  "orbitBoundsInverted os =
     (maximumAzimuthalAngle os < minimumAzimuthalAngle os \<or>
      maximumPolarAngle os < minimumPolarAngle os \<or>
      maximumRadius os < minimumRadius os)"

definition boundsInverted :: "options \<Rightarrow> bool" where
  "boundsInverted os =
     (orbitBoundsInverted os \<or> maximumFieldOfView os < minimumFieldOfView os)"

definition invertedRadius :: partial_options where
  "invertedRadius = noOptions\<lparr>p_minimumRadius := Some (Fin 5), p_maximumRadius := Some (Fin 2)\<rparr>"

text \<open>
  \<open>safePolar\<close>: a polar angle in the closed interval \<open>[\<epsilon>, \<pi> - \<epsilon>]\<close>; \<open>strictlySafePolar\<close>: in
  the open interval \<open>(\<epsilon>, \<pi> - \<epsilon>)\<close>. \<open>polarSafe\<close>: the goal and the rendered polar angle are
  both safe. \<open>polarInvariant\<close> adds what keeps them so: the polar bounds are numbers.

  A \<open>call\<close> is one call of a public operation; \<open>perform\<close> is the state it leaves, whether it
  returns or throws. A call is \<open>numeric\<close> when the polar angle, polar delta or polar bounds
  it passes are not \<open>NaN\<close>; a damper is a \<open>numericDamper\<close> when it returns no \<open>NaN\<close> for finite
  values.
\<close>

definition safePolar :: "num \<Rightarrow> bool" where
  "safePolar a = (Fin EPS \<le> a \<and> a \<le> Fin (pi - EPS))"

definition strictlySafePolar :: "num \<Rightarrow> bool" where
  "strictlySafePolar a = (Fin EPS < a \<and> a < Fin (pi - EPS))"

definition polarSafe :: "controls \<Rightarrow> bool" where
  "polarSafe s = (safePolar (phi (goalSpherical s)) \<and> safePolar (phi (spherical s)))"

definition polarInvariant :: "controls \<Rightarrow> bool" where
  "polarInvariant s =
     (polarSafe s \<and> minimumPolarAngle (opts s) \<noteq> NaN \<and> maximumPolarAngle (opts s) \<noteq> NaN)"

datatype call =
  SetOrbit "num option" "num option" "num option"
| AdjustOrbit num num num
| SetRadius num
| SetFieldOfView num
| ApplyOptions partial_options
| Update num num

fun perform :: "dampers \<Rightarrow> controls \<Rightarrow> call \<Rightarrow> controls" where
  "perform D s (SetOrbit a b r) = final (setOrbit s a b r)"
| "perform D s (AdjustOrbit dt dp dz) = final (adjustOrbit s dt dp dz)"
| "perform D s (SetRadius r) = final (setRadius s r)"
| "perform D s (SetFieldOfView f) = final (setFieldOfView s f)"
| "perform D s (ApplyOptions p) = final (applyOptions s p)"
| "perform D s (Update time delta) = update D s time delta"

fun numeric :: "call \<Rightarrow> bool" where
  "numeric (SetOrbit a b r) = (b \<noteq> Some NaN)"
| "numeric (AdjustOrbit dt dp dz) = (dp \<noteq> NaN)"
| "numeric (ApplyOptions p) =
     (p_minimumPolarAngle p \<noteq> Some NaN \<and> p_maximumPolarAngle p \<noteq> Some NaN)"
| "numeric c = True"

definition numericDamper :: "damper \<Rightarrow> bool" where
  "numericDamper d = (\<forall>x g t n. d (Fin x) (Fin g) t n \<noteq> NaN)"

section \<open>Facts about numbers\<close>

lemma num_simps [simp]:
  "Fin a - Fin b = Fin (a - b)"
  "Math_PI = Fin pi"
  by (simp_all add: minus_num_def Math_PI_def)

lemma EPS_bounds: "0 < EPS" "EPS < pi / 8"
  using pi_ge_two by (simp_all add: EPS_def)

lemma pi_ge_3: "3 \<le> pi"
  using sin_x_le_x [of "pi / 6"] by (simp add: sin_30)

lemma ln_facts:
  "ln (15::real) - ln 10 \<le> 1 / 2" "0 < ln (15::real) - ln 10"
  "1 / 2 \<le> ln (45::real) - ln 10" "ln (45::real) - ln 10 \<le> 7 / 2"
proof -
  have a: "ln (15::real) - ln 10 = ln (3 / 2)" using ln_div [of "15::real" 10] by simp
  have b: "ln (45::real) - ln 10 = ln (9 / 2)" using ln_div [of "45::real" 10] by simp
  show "ln (15::real) - ln 10 \<le> 1 / 2" unfolding a using ln_le_minus_one [of "3 / 2 :: real"] by simp
  show "0 < ln (15::real) - ln 10" by simp
  have "exp (1 / 2 :: real) \<le> exp 1" by simp
  also have "\<dots> \<le> 3" by (rule exp_le)
  finally have "exp (1 / 2 :: real) \<le> 9 / 2" by simp
  then have "ln (exp (1 / 2 :: real)) \<le> ln (9 / 2)" by (subst ln_le_cancel_iff) simp_all
  then show "1 / 2 \<le> ln (45::real) - ln 10" unfolding b by simp
  show "ln (45::real) - ln 10 \<le> 7 / 2" unfolding b using ln_le_minus_one [of "9 / 2 :: real"] by simp
qed

lemma Fin_minus_NaN: "d \<noteq> NaN \<Longrightarrow> Fin x - d \<noteq> NaN"
  by (cases d) (simp_all add: minus_num_def)

lemma Math_minmax_NaN:
  "a \<noteq> NaN \<Longrightarrow> b \<noteq> NaN \<Longrightarrow> Math_min a b \<noteq> NaN"
  "a \<noteq> NaN \<Longrightarrow> b \<noteq> NaN \<Longrightarrow> Math_max a b \<noteq> NaN"
  by (simp_all add: Math_min_def Math_max_def)

lemma wrapAngle_Fin:
  "wrapAngle (Fin x) = Fin (frac ((x + pi) / (2 * pi)) * 2 * pi - pi)"
  by (simp add: wrapAngle_def Let_def frac_def)

lemma wrapAngle_finite:
  obtains y k where "wrapAngle (Fin x) = Fin y" "- pi \<le> y" "y < pi"
    "y = x + 2 * pi * of_int (k::int)"
proof -
  define n where "n = (x + pi) / (2 * pi)"
  have "frac n * 2 * pi - pi = (n - of_int \<lfloor>n\<rfloor>) * 2 * pi - pi" by (simp add: frac_def)
  also have "\<dots> = x + 2 * pi * of_int (- \<lfloor>n\<rfloor>)"
    using pi_gt_zero by (simp add: n_def field_simps)
  finally have "frac n * 2 * pi - pi = x + 2 * pi * of_int (- \<lfloor>n\<rfloor>)" .
  moreover have "wrapAngle (Fin x) = Fin (frac n * 2 * pi - pi)"
    by (simp add: wrapAngle_Fin n_def)
  moreover have "- pi \<le> frac n * 2 * pi - pi" by simp
  moreover have "frac n * 2 * pi - pi < pi" using frac_lt_1 [of n] pi_gt_zero by simp
  ultimately show ?thesis using that by blast
qed

lemma wrapAngle_id: "- pi \<le> x \<Longrightarrow> x < pi \<Longrightarrow> wrapAngle (Fin x) = Fin x"
proof -
  assume a: "- pi \<le> x" "x < pi"
  have "0 \<le> (x + pi) / (2 * pi)" using a by simp
  moreover have "(x + pi) / (2 * pi) < 1" using a by simp
  ultimately have "frac ((x + pi) / (2 * pi)) = (x + pi) / (2 * pi)"
    by (simp add: frac_eq)
  then show ?thesis by (simp add: wrapAngle_Fin field_simps)
qed

lemma rewrap_idem:
  "wrapAngle ((wrapAngle (x - n) + n) - n) + n = wrapAngle (x - n) + n"
proof (cases "\<exists>c t. x = Fin c \<and> n = Fin t")
  case True
  then obtain c t where x: "x = Fin c" and n: "n = Fin t" by blast
  obtain y k where w: "wrapAngle (Fin (c - t)) = Fin y" and "- pi \<le> y" "y < pi"
    and "y = (c - t) + 2 * pi * of_int (k::int)"
    by (rule wrapAngle_finite)
  then show ?thesis by (simp add: x n wrapAngle_id)
next
  case False
  have nan: "wrapAngle NaN = NaN" "wrapAngle PosInf = NaN" "wrapAngle NegInf = NaN"
    by (simp_all add: wrapAngle_def Let_def minus_num_def)
  from False show ?thesis
    by (cases x; cases n) (simp_all add: nan minus_num_def)
qed

lemma clamp_Fin:
  "lo \<le> hi \<Longrightarrow> clamp (Fin v) (Fin lo) (Fin hi) = Inr (Fin (max lo (min hi v)))"
  by (simp add: clamp_def Math_max_def Math_min_def max_def min_def)

lemma clamp_unbounded: "clamp (Fin t) NegInf PosInf = Inr (Fin t)"
  by (simp add: clamp_def Math_max_def Math_min_def)

lemma clamp_delta_returns:
  "\<exists>cl. clamp dt (- Fin L - dT) (Fin L - dT) = Inr cl" if "0 \<le> L"
  using that by (cases dT) (simp_all add: clamp_def minus_num_def)

lemma clamp_idem:
  assumes "clamp x lo hi = Inr n" and "x \<noteq> NaN" and "lo \<noteq> NaN" and "hi \<noteq> NaN"
  shows "clamp n lo hi = Inr n" and "n \<noteq> NaN" and "lo \<le> n" and "n \<le> hi"
  using assms
  by (cases x; cases lo; cases hi;
      auto simp add: clamp_def Math_max_def Math_min_def split: if_splits)+

lemma clamp_orKeep_idem:
  assumes "clamp (orKeep a old) lo hi = Inr n" and "orKeep a old \<noteq> NaN"
    and "lo \<noteq> NaN" and "hi \<noteq> NaN"
  shows "clamp (orKeep a n) lo hi = Inr n"
  using assms clamp_idem(1) [OF assms] by (cases a) simp_all

lemma clamp_inside: "lo \<le> Fin x \<Longrightarrow> Fin x \<le> hi \<Longrightarrow> clamp (Fin x) lo hi = Inr (Fin x)"
  by (cases lo; cases hi) (auto simp add: clamp_def Math_max_def Math_min_def)

lemma clamp_at_hi: "lo \<le> Fin b \<Longrightarrow> b \<le> x \<Longrightarrow> clamp (Fin x) lo (Fin b) = Inr (Fin b)"
  by (cases lo) (auto simp add: clamp_def Math_max_def Math_min_def)

lemma clamp_at_lo: "Fin a \<le> hi \<Longrightarrow> x \<le> a \<Longrightarrow> clamp (Fin x) (Fin a) hi = Inr (Fin a)"
  by (cases hi) (auto simp add: clamp_def Math_max_def Math_min_def)

lemma num_le_trans: "lo \<le> Fin x \<Longrightarrow> Fin x \<le> hi \<Longrightarrow> \<not> hi < lo"
  by (cases lo; cases hi) simp_all

lemma Math_min_Fin_le: "Fin x \<le> c \<Longrightarrow> Math_min (Fin x) c = Fin x"
  by (cases c) (auto simp add: Math_min_def)

lemma Math_min_cap: "c < Fin x \<Longrightarrow> Math_min (Fin x) c = c"
  by (cases c) (auto simp add: Math_min_def)

lemma Math_log_Fin: "Math_log x = Fin y \<Longrightarrow> \<exists>p. x = Fin p \<and> 0 < p \<and> y = ln p"
  by (cases x) (auto split: if_splits)

lemma Math_log_le: "Math_log x \<le> Fin l \<Longrightarrow> \<exists>p. x = Fin p \<and> 0 \<le> p \<and> p \<le> exp l"
proof (cases x)
  case (Fin p)
  assume a: "Math_log x \<le> Fin l"
  show ?thesis
  proof (cases "p = 0")
    case True
    then show ?thesis using Fin by simp
  next
    case False
    with a Fin have p: "0 < p" "ln p \<le> l" by (auto split: if_splits)
    then have "p \<le> exp l" by (metis exp_ln exp_le_cancel_iff)
    then show ?thesis using Fin p by simp
  qed
qed simp_all

lemma Math_log_ge: "Fin l \<le> Math_log x \<Longrightarrow> x = PosInf \<or> (\<exists>q. x = Fin q \<and> exp l \<le> q)"
proof (cases x)
  case (Fin q)
  assume a: "Fin l \<le> Math_log x"
  with Fin have q: "0 < q" "l \<le> ln q" by (auto split: if_splits)
  then have "exp l \<le> q" by (metis exp_ln exp_le_cancel_iff)
  then show ?thesis using Fin by simp
qed simp_all

text \<open>
  The delta that \<open>adjustOrbit\<close> lets through: \<open>theta - clamp(deltaTheta, -limit - dTheta,
  limit - dTheta)\<close> is \<open>theta - deltaTheta\<close> cut into the interval of half-width \<open>limit\<close>
  around the rendered azimuth.
\<close>

lemma limited_delta:
  assumes "d \<noteq> NaN" and "0 \<le> L"
  obtains cl where "clamp d (Fin (- L - (c - g))) (Fin (L - (c - g))) = Inr (Fin cl)"
    and "\<bar>g - cl - c\<bar> \<le> L"
    and "Fin (g - cl) = Math_max (Fin (c - L)) (Math_min (Fin (c + L)) (Fin g - d))"
proof (cases d)
  case NaN
  with assms show ?thesis by simp
next
  case NegInf
  have "clamp d (Fin (- L - (c - g))) (Fin (L - (c - g))) = Inr (Fin (- L - (c - g)))"
    using assms NegInf by (simp add: clamp_def Math_max_def Math_min_def)
  moreover have "\<bar>g - (- L - (c - g)) - c\<bar> \<le> L" using assms by simp
  moreover have "Fin (g - (- L - (c - g))) =
      Math_max (Fin (c - L)) (Math_min (Fin (c + L)) (Fin g - d))"
    using assms NegInf by (simp add: Math_max_def Math_min_def minus_num_def)
  ultimately show ?thesis using that by blast
next
  case (Fin x)
  have "clamp d (Fin (- L - (c - g))) (Fin (L - (c - g)))
      = Inr (Fin (max (- L - (c - g)) (min (L - (c - g)) x)))"
    using assms Fin by (simp add: clamp_Fin)
  moreover have "\<bar>g - max (- L - (c - g)) (min (L - (c - g)) x) - c\<bar> \<le> L"
    using assms by (auto simp add: max_def min_def abs_le_iff)
  moreover have "Fin (g - max (- L - (c - g)) (min (L - (c - g)) x)) =
      Math_max (Fin (c - L)) (Math_min (Fin (c + L)) (Fin g - d))"
    using assms Fin by (auto simp add: Math_max_def Math_min_def max_def min_def)
  ultimately show ?thesis using that by blast
next
  case PosInf
  have "clamp d (Fin (- L - (c - g))) (Fin (L - (c - g))) = Inr (Fin (L - (c - g)))"
    using assms PosInf by (simp add: clamp_def Math_max_def Math_min_def)
  moreover have "\<bar>g - (L - (c - g)) - c\<bar> \<le> L" using assms by simp
  moreover have "Fin (g - (L - (c - g))) =
      Math_max (Fin (c - L)) (Math_min (Fin (c + L)) (Fin g - d))"
    using assms PosInf by (simp add: Math_max_def Math_min_def minus_num_def)
  ultimately show ?thesis using that by blast
qed

text \<open>
  A value within \<open>L\<close> of \<open>c\<close> stays within \<open>L\<close> of \<open>c\<close> when it is clamped into bounds that
  reach into the interval of half-width \<open>L\<close> around \<open>c\<close>.
\<close>

lemma clamp_towards:
  assumes "lo \<le> Fin (c + L)" and "Fin (c - L) \<le> hi" and "\<not> hi < lo" and "\<bar>t - c\<bar> \<le> L"
  obtains n where "clamp (Fin t) lo hi = Inr (Fin n)" and "\<bar>n - c\<bar> \<le> L"
    and "Fin n = Math_max lo (Math_min hi (Fin t))"
proof -
  have "\<exists>n. clamp (Fin t) lo hi = Inr (Fin n) \<and> \<bar>n - c\<bar> \<le> L \<and>
            Fin n = Math_max lo (Math_min hi (Fin t))"
    using assms
    by (cases lo; cases hi)
       (auto simp add: clamp_def Math_max_def Math_min_def abs_le_iff)
  then show ?thesis using that by blast
qed

section \<open>What setOrbit, setFieldOfView and adjustOrbit write\<close>

text \<open>
  \<open>setOrbit\<close> writes the rendered azimuth, the goal orbit and \<open>isUserChange\<close>;
  \<open>setFieldOfView\<close> writes the goal \<open>logFov\<close>; \<open>adjustOrbit\<close> calls the two.
\<close>

lemma setOrbit_current:
  "spherical (final (setOrbit s a b r)) =
     (case clamp (orKeep a (theta (goalSpherical s)))
             (minimumAzimuthalAngle (opts s)) (maximumAzimuthalAngle (opts s)) of
        Inl e \<Rightarrow> spherical s
      | Inr nextTheta \<Rightarrow>
          if \<not> isFinite (minimumAzimuthalAngle (opts s)) \<and>
             \<not> isFinite (maximumAzimuthalAngle (opts s))
          then (spherical s)\<lparr>theta := wrapAngle (theta (spherical s) - nextTheta) + nextTheta\<rparr>
          else spherical s)"
  by (simp add: setOrbit_def Let_def split: sum.splits)

lemma setOrbit_keeps_fov:
  "logFov (final (setOrbit s a b r)) = logFov s"
  "goalLogFov (final (setOrbit s a b r)) = goalLogFov s"
  "camera_fov (final (setOrbit s a b r)) = camera_fov s"
  by (simp_all add: setOrbit_def Let_def split: sum.splits)

lemma setOrbit_keeps_opts: "opts (final (setOrbit s a b r)) = opts s"
  by (simp add: setOrbit_def Let_def split: sum.splits)

lemma setOrbit_goal_theta:
  assumes "setOrbit s a b r = Returned changed s'"
  shows "clamp (orKeep a (theta (goalSpherical s)))
           (minimumAzimuthalAngle (opts s)) (maximumAzimuthalAngle (opts s))
         = Inr (theta (goalSpherical s'))"
  using assms
  by (auto simp add: setOrbit_def Let_def strictEq_def makeSafe_def split: sum.splits if_splits)

lemma setOrbit_goal_radius:
  assumes "setOrbit s a b r = Returned changed s'"
  shows "clamp (orKeep r (radius (goalSpherical s)))
           (minimumRadius (opts s)) (maximumRadius (opts s))
         = Inr (radius (goalSpherical s'))"
  using assms
  by (auto simp add: setOrbit_def Let_def strictEq_def makeSafe_def split: sum.splits if_splits)

lemma setOrbit_returns:
  assumes "\<not> maximumAzimuthalAngle (opts s) < minimumAzimuthalAngle (opts s)"
    and "\<not> maximumPolarAngle (opts s) < minimumPolarAngle (opts s)"
    and "\<not> maximumRadius (opts s) < minimumRadius (opts s)"
  shows "returned (setOrbit s a b r)"
  using assms by (simp add: setOrbit_def clamp_def Let_def)

lemma setFieldOfView_keeps_opts: "opts (final (setFieldOfView s f)) = opts s"
  by (simp add: setFieldOfView_def split: sum.splits)

lemma setFieldOfView_keeps_orbit:
  "goalSpherical (final (setFieldOfView s f)) = goalSpherical s"
  "spherical (final (setFieldOfView s f)) = spherical s"
  by (simp_all add: setFieldOfView_def split: sum.splits)

lemma orbit_andThen_fov:
  "spherical (final (andThen x (\<lambda>ch s'. if c then setFieldOfView s' (g s') else Returned () s')))
     = spherical (final x)"
  "goalSpherical (final (andThen x (\<lambda>ch s'. if c then setFieldOfView s' (g s') else Returned () s')))
     = goalSpherical (final x)"
  by (cases x; simp add: setFieldOfView_def split: sum.splits)+

lemma opts_andThen:
  assumes "opts (final x) = o'" and "\<And>a s'. opts (final (f a s')) = opts s'"
  shows "opts (final (andThen x f)) = o'"
  using assms by (cases x) simp_all

lemma adjustOrbit_keeps_opts: "opts (final (adjustOrbit s a b c)) = opts s"
  unfolding adjustOrbit_def Let_def
  by (auto split: sum.splits intro!: opts_andThen
      simp: setOrbit_keeps_opts setFieldOfView_keeps_opts)

section \<open>The example states\<close>

lemma constructor_atRest:
  "constructor settledDampers (Fin 45) (Fin 600) False = Returned () atRest"
  using pi_ge_two EPS_bounds
  by (simp add: constructor_def initialFields_def setOrbit_def DEFAULT_OPTIONS_def clamp_def
      newSpherical_def Math_max_def Math_min_def Let_def wrapAngle_Fin strictEq_def makeSafe_def
      setFieldOfView_def jumpToGoal_def update_def isStationary_def settledDampers_def
      moveCamera_def dispatchEvent_def atRest_def)

lemma polarZero_eq: "polarZero = atRest\<lparr>opts := DEFAULT_OPTIONS\<lparr>minimumPolarAngle := Fin 0\<rparr>\<rparr>"
  using pi_ge_two
  by (simp add: polarZero_def applyOptions_def atRest_def noOptions_def assignOptions_def
      DEFAULT_OPTIONS_def setOrbit_def clamp_def Math_max_def Math_min_def Let_def wrapAngle_Fin
      strictEq_def setFieldOfView_def)

lemma setOrbit_polarZero:
  "setOrbit polarZero (Some (Fin 0)) (Some (Fin 0)) (Some (Fin 1)) =
     Returned True (polarZero\<lparr>goalSpherical := \<lparr>radius = Fin 1, phi = Fin EPS, theta = Fin 0\<rparr>\<rparr>)"
  using pi_ge_two EPS_bounds
  by (simp add: polarZero_eq atRest_def
      DEFAULT_OPTIONS_def setOrbit_def clamp_def Math_max_def Math_min_def Let_def wrapAngle_Fin
      strictEq_def makeSafe_def)

lemma focusGated_eq:
  "focusGated =
     atRest\<lparr>element_cursor := ''grab'', element_listensWheel := True,
            interactionEnabled := True,
            opts := DEFAULT_OPTIONS\<lparr>interactionPolicy := ''allow-when-focused''\<rparr>\<rparr>"
  using pi_ge_two
  by (simp add: focusGated_def enableInteraction_def applyOptions_def atRest_def noOptions_def
      assignOptions_def DEFAULT_OPTIONS_def setOrbit_def clamp_def Math_max_def Math_min_def
      Let_def wrapAngle_Fin strictEq_def setFieldOfView_def)

lemma boundedAzimuth_eq:
  "boundedAzimuth =
     atRest\<lparr>opts := DEFAULT_OPTIONS\<lparr>minimumAzimuthalAngle := Fin 10,
                                     maximumAzimuthalAngle := Fin 20\<rparr>,
            goalSpherical := \<lparr>radius = Fin 1, phi = Fin (pi / 2), theta = Fin 10\<rparr>\<rparr>"
  using pi_ge_two EPS_bounds
  by (simp add: boundedAzimuth_def applyOptions_def atRest_def noOptions_def assignOptions_def
      DEFAULT_OPTIONS_def setOrbit_def clamp_def Math_max_def Math_min_def Let_def
      strictEq_def setFieldOfView_def makeSafe_def)

lemma specZoom_eq: "specZoom = atRest\<lparr>opts := DEFAULT_OPTIONS\<lparr>maximumRadius := Fin 2\<rparr>\<rparr>"
  using pi_ge_two
  by (simp add: specZoom_def applyOptions_def atRest_def noOptions_def assignOptions_def
      DEFAULT_OPTIONS_def setOrbit_def clamp_def Math_max_def Math_min_def Let_def wrapAngle_Fin
      strictEq_def setFieldOfView_def)

lemma zoomedOutAt15_eq:
  "zoomedOutAt15 =
     atRest\<lparr>opts := DEFAULT_OPTIONS\<lparr>maximumRadius := Fin 2\<rparr>,
            goalSpherical := \<lparr>radius = Fin 2, phi = Fin (pi / 2), theta = Fin 0\<rparr>,
            goalLogFov := Fin (ln 15)\<rparr>"
  using pi_ge_two
  by (simp add: zoomedOutAt15_def specZoom_eq setRadius_def atRest_def
      DEFAULT_OPTIONS_def setOrbit_def clamp_def Math_max_def Math_min_def Let_def wrapAngle_Fin
      strictEq_def setFieldOfView_def)

lemma touchStarted_eq:
  "touchStarted =
     atRest\<lparr>element_cursor := ''grabbing'', element_listensWheel := True,
            interactionEnabled := True, pointerIsDown := True,
            lastPointerPosition := \<lparr>clientX = Fin 100, clientY = Fin 100\<rparr>,
            lastTouches := Some [\<lparr>clientX = Fin 100, clientY = Fin 100\<rparr>]\<rparr>"
  by (simp add: touchStarted_def deliver_def enableInteraction_def onPointerDown_def
      atRest_def handleSinglePointerDown_def Let_def)

section \<open>C1: adjustOrbit keeps the goal azimuth near the rendered one\<close>

text \<open>
  C1 states the bound for every call in any state. It fails where the azimuth bounds lie
  away from the rendered azimuth: \<open>setOrbit\<close> clamps the goal azimuth into the bounds after
  \<open>adjustOrbit\<close> has limited the delta, and does not wrap the rendered azimuth. On
  \<open>boundedAzimuth\<close> (bounds \<open>[10, 20]\<close>, rendered azimuth \<open>0\<close>) \<open>adjustOrbit(10, 0, 0)\<close>
  leaves the goal at \<open>10\<close>, more than \<open>\<pi>\<close> from the rendered \<open>0\<close>.
\<close>

theorem C1_bounded_azimuth_counterexample:
  "\<not> goalWithinPi (final (adjustOrbit boundedAzimuth (Fin 10) (Fin 0) (Fin 0)))"
  using pi_ge_two pi_less_4 EPS_bounds
  by (simp add: boundedAzimuth_eq atRest_def adjustOrbit_def
      DEFAULT_OPTIONS_def setOrbit_def clamp_def Math_max_def Math_min_def Let_def
      strictEq_def makeSafe_def goalWithinPi_def)

text \<open>
  \<open>setOrbit\<close> towards an azimuth that its bounds clamp to \<open>n\<close>, less than \<open>\<pi>\<close> from the
  rendered azimuth \<open>c\<close>: the goal azimuth becomes \<open>n\<close> and the rendered azimuth stays \<open>c\<close>
  (with an unbounded azimuth it is rewritten to \<open>wrapAngle(c - n) + n\<close>, which is \<open>c\<close>).
\<close>

lemma setOrbit_near:
  assumes az: "\<not> maximumAzimuthalAngle (opts s) < minimumAzimuthalAngle (opts s)"
    and po: "\<not> maximumPolarAngle (opts s) < minimumPolarAngle (opts s)"
    and ra: "\<not> maximumRadius (opts s) < minimumRadius (opts s)"
    and c: "theta (spherical s) = Fin c"
    and cl: "clamp (Fin t) (minimumAzimuthalAngle (opts s)) (maximumAzimuthalAngle (opts s))
               = Inr (Fin n)"
    and near: "\<bar>n - c\<bar> < pi"
  shows "theta (spherical (final (setOrbit s (Some (Fin t)) b r))) = Fin c"
    and "theta (goalSpherical (final (setOrbit s (Some (Fin t)) b r))) = Fin n"
proof -
  have w: "wrapAngle (Fin (c - n)) = Fin (c - n)"
    using near by (intro wrapAngle_id) (simp_all add: abs_less_iff)
  show "theta (spherical (final (setOrbit s (Some (Fin t)) b r))) = Fin c"
    using c cl w by (simp add: setOrbit_current)
  have "returned (setOrbit s (Some (Fin t)) b r)"
    using az po ra by (rule setOrbit_returns)
  then obtain ch s' where r: "setOrbit s (Some (Fin t)) b r = Returned ch s'"
    by (cases "setOrbit s (Some (Fin t)) b r") simp_all
  have "theta (goalSpherical s') = Fin n"
    using setOrbit_goal_theta [OF r] cl by simp
  then show "theta (goalSpherical (final (setOrbit s (Some (Fin t)) b r))) = Fin n"
    by (simp add: r)
qed

text \<open>
  C1, amended: let the rendered azimuth \<open>c\<close> and the goal azimuth \<open>g\<close> be finite, the delta
  \<open>d\<close> not be \<open>NaN\<close>, no bounds be inverted, and the azimuth bounds reach into the interval
  of half-width \<open>\<pi> - 0.001\<close> around the rendered azimuth:
  \<open>minimumAzimuthalAngle \<le> c + (\<pi> - 0.001)\<close> and \<open>c - (\<pi> - 0.001) \<le> maximumAzimuthalAngle\<close>.
  That is so whenever the azimuth is unbounded and whenever the rendered azimuth lies
  within the bounds. Then \<open>adjustOrbit(d, deltaPhi, deltaZoom)\<close> leaves the rendered azimuth
  at \<open>c\<close> and sets the goal azimuth to \<open>g - d\<close> cut into
  \<open>[c - (\<pi> - 0.001), c + (\<pi> - 0.001)]\<close> and then into the azimuth bounds, and the goal is at
  most \<open>\<pi> - 0.001\<close> from the rendered azimuth. The goal moves against the sign of the
  delta: a large positive delta puts it at \<open>c - (\<pi> - 0.001)\<close>, or at the bound nearer
  to \<open>c\<close>. (With an unbounded azimuth \<open>setOrbit\<close> recomputes the rendered azimuth, to the
  same value in exact arithmetic.)
\<close>

theorem C1_adjustOrbit_goal_within_limit:
  assumes lo: "minimumAzimuthalAngle (opts s) \<le> Fin (c + dThetaLimit)"
    and hi: "Fin (c - dThetaLimit) \<le> maximumAzimuthalAngle (opts s)"
    and az: "\<not> maximumAzimuthalAngle (opts s) < minimumAzimuthalAngle (opts s)"
    and po: "\<not> maximumPolarAngle (opts s) < minimumPolarAngle (opts s)"
    and ra: "\<not> maximumRadius (opts s) < minimumRadius (opts s)"
    and c: "theta (spherical s) = Fin c"
    and g: "theta (goalSpherical s) = Fin g"
    and d: "d \<noteq> NaN"
  shows "theta (spherical (final (adjustOrbit s d deltaPhi deltaZoom))) = Fin c \<and>
         theta (goalSpherical (final (adjustOrbit s d deltaPhi deltaZoom))) =
           Math_max (minimumAzimuthalAngle (opts s))
             (Math_min (maximumAzimuthalAngle (opts s))
                (Math_max (Fin (c - dThetaLimit))
                   (Math_min (Fin (c + dThetaLimit)) (Fin g - d)))) \<and>
         Math_abs (theta (goalSpherical (final (adjustOrbit s d deltaPhi deltaZoom))) -
                   theta (spherical (final (adjustOrbit s d deltaPhi deltaZoom))))
           \<le> Fin (pi - 1 / 1000)"
proof -
  have L: "0 \<le> dThetaLimit" "dThetaLimit < pi"
    using pi_ge_two by (simp_all add: dThetaLimit_def)
  obtain cl where c1: "clamp d (Fin (- dThetaLimit - (c - g))) (Fin (dThetaLimit - (c - g)))
                         = Inr (Fin cl)"
    and t: "\<bar>g - cl - c\<bar> \<le> dThetaLimit"
    and tf: "Fin (g - cl) =
               Math_max (Fin (c - dThetaLimit)) (Math_min (Fin (c + dThetaLimit)) (Fin g - d))"
    using limited_delta [OF d L(1)] by blast
  obtain n where c2: "clamp (Fin (g - cl)) (minimumAzimuthalAngle (opts s))
                        (maximumAzimuthalAngle (opts s)) = Inr (Fin n)"
    and n: "\<bar>n - c\<bar> \<le> dThetaLimit"
    and nf: "Fin n = Math_max (minimumAzimuthalAngle (opts s))
                       (Math_min (maximumAzimuthalAngle (opts s)) (Fin (g - cl)))"
    using clamp_towards [OF lo hi az t] by blast
  have near: "\<bar>n - c\<bar> < pi" using n L by simp
  have "\<exists>b r. spherical (final (adjustOrbit s d deltaPhi deltaZoom))
            = spherical (final (setOrbit s (Some (Fin (g - cl))) b r)) \<and>
          goalSpherical (final (adjustOrbit s d deltaPhi deltaZoom))
            = goalSpherical (final (setOrbit s (Some (Fin (g - cl))) b r))"
    using c1 c g
    by (simp add: adjustOrbit_def Let_def dThetaLimit_def orbit_andThen_fov) blast
  then obtain b r where
    sp: "spherical (final (adjustOrbit s d deltaPhi deltaZoom))
            = spherical (final (setOrbit s (Some (Fin (g - cl))) b r))"
    and go: "goalSpherical (final (adjustOrbit s d deltaPhi deltaZoom))
            = goalSpherical (final (setOrbit s (Some (Fin (g - cl))) b r))"
    by blast
  have 1: "theta (spherical (final (adjustOrbit s d deltaPhi deltaZoom))) = Fin c"
    unfolding sp by (rule setOrbit_near(1) [OF az po ra c c2 near])
  have 2: "theta (goalSpherical (final (adjustOrbit s d deltaPhi deltaZoom))) = Fin n"
    unfolding go by (rule setOrbit_near(2) [OF az po ra c c2 near])
  have 3: "Math_abs (Fin n - Fin c) \<le> Fin (pi - 1 / 1000)"
    using n by (simp add: dThetaLimit_def)
  show ?thesis
    unfolding 1 2 using 3 nf tf by simp
qed

lemma boundedNear_eq:
  "boundedNear =
     atRest\<lparr>opts := DEFAULT_OPTIONS\<lparr>minimumAzimuthalAngle := Fin 1,
                                     maximumAzimuthalAngle := Fin 2\<rparr>,
            goalSpherical := \<lparr>radius = Fin 1, phi = Fin (pi / 2), theta = Fin 1\<rparr>\<rparr>"
  using pi_ge_two EPS_bounds
  by (simp add: boundedNear_def applyOptions_def atRest_def noOptions_def assignOptions_def
      DEFAULT_OPTIONS_def setOrbit_def clamp_def Math_max_def Math_min_def Let_def
      strictEq_def setFieldOfView_def makeSafe_def)

text \<open>
  The witness: on the controller at rest (both azimuths \<open>0\<close>, unbounded)
  \<open>adjustOrbit(10, 0, 0)\<close> puts the goal azimuth at \<open>-(\<pi> - 0.001)\<close>; on \<open>boundedNear\<close> (bounds
  \<open>[1, 2]\<close>, rendered azimuth \<open>0\<close> outside them, goal azimuth \<open>1\<close>) it leaves the goal at \<open>1\<close>.
\<close>

theorem C1_adjustOrbit_witness:
  "theta (spherical (final (adjustOrbit atRest (Fin 10) (Fin 0) (Fin 0)))) = Fin 0 \<and>
   theta (goalSpherical (final (adjustOrbit atRest (Fin 10) (Fin 0) (Fin 0))))
     = Fin (- dThetaLimit) \<and>
   theta (spherical (final (adjustOrbit boundedNear (Fin 10) (Fin 0) (Fin 0)))) = Fin 0 \<and>
   theta (goalSpherical (final (adjustOrbit boundedNear (Fin 10) (Fin 0) (Fin 0)))) = Fin 1"
proof -
  have L: "3 - 1 / 1000 \<le> dThetaLimit" "dThetaLimit < 4"
    using pi_ge_3 pi_less_4 by (simp_all add: dThetaLimit_def)
  have o: "minimumAzimuthalAngle (opts atRest) = NegInf"
    "maximumAzimuthalAngle (opts atRest) = PosInf"
    "minimumAzimuthalAngle (opts boundedNear) = Fin 1"
    "maximumAzimuthalAngle (opts boundedNear) = Fin 2"
    by (simp_all add: boundedNear_eq atRest_def DEFAULT_OPTIONS_def)
  have h: "minimumAzimuthalAngle (opts atRest) \<le> Fin (0 + dThetaLimit)"
    "Fin (0 - dThetaLimit) \<le> maximumAzimuthalAngle (opts atRest)"
    "\<not> maximumAzimuthalAngle (opts atRest) < minimumAzimuthalAngle (opts atRest)"
    "\<not> maximumPolarAngle (opts atRest) < minimumPolarAngle (opts atRest)"
    "\<not> maximumRadius (opts atRest) < minimumRadius (opts atRest)"
    "theta (spherical atRest) = Fin 0"
    "theta (goalSpherical atRest) = Fin 0"
    "Fin 10 \<noteq> NaN"
    by (simp_all add: atRest_def DEFAULT_OPTIONS_def)
  have k: "minimumAzimuthalAngle (opts boundedNear) \<le> Fin (0 + dThetaLimit)"
    "Fin (0 - dThetaLimit) \<le> maximumAzimuthalAngle (opts boundedNear)"
    "\<not> maximumAzimuthalAngle (opts boundedNear) < minimumAzimuthalAngle (opts boundedNear)"
    "\<not> maximumPolarAngle (opts boundedNear) < minimumPolarAngle (opts boundedNear)"
    "\<not> maximumRadius (opts boundedNear) < minimumRadius (opts boundedNear)"
    "theta (spherical boundedNear) = Fin 0"
    "theta (goalSpherical boundedNear) = Fin 1"
    "Fin 10 \<noteq> NaN"
    using L by (simp_all add: boundedNear_eq atRest_def DEFAULT_OPTIONS_def)
  from C1_adjustOrbit_goal_within_limit [OF h, of "Fin 0" "Fin 0"] L
  have 1: "theta (spherical (final (adjustOrbit atRest (Fin 10) (Fin 0) (Fin 0)))) = Fin 0 \<and>
     theta (goalSpherical (final (adjustOrbit atRest (Fin 10) (Fin 0) (Fin 0))))
       = Fin (- dThetaLimit)"
    by (simp add: o Math_max_def Math_min_def)
  from C1_adjustOrbit_goal_within_limit [OF k, of "Fin 0" "Fin 0"] L
  have 2: "theta (spherical (final (adjustOrbit boundedNear (Fin 10) (Fin 0) (Fin 0)))) = Fin 0 \<and>
     theta (goalSpherical (final (adjustOrbit boundedNear (Fin 10) (Fin 0) (Fin 0)))) = Fin 1"
    by (simp add: o Math_max_def Math_min_def)
  from 1 2 show ?thesis by blast
qed

section \<open>C2: the zoom moves radius and field of view together\<close>

text \<open>What \<open>adjustOrbit\<close> hands to \<open>setOrbit\<close> and \<open>setFieldOfView\<close> for a zoom delta.\<close>

lemma adjustOrbit_zoom:
  assumes az: "\<not> maximumAzimuthalAngle (opts s) < minimumAzimuthalAngle (opts s)"
    and po: "\<not> maximumPolarAngle (opts s) < minimumPolarAngle (opts s)"
    and ra: "\<not> maximumRadius (opts s) < minimumRadius (opts s)"
    and l: "goalLogFov s = Fin l"
    and z: "z \<noteq> 0"
  shows "clamp (radius (goalSpherical s) + Fin z *
                  Math_min (if isFinite (zoomRatio s (Fin z)) then zoomRatio s (Fin z) else PosInf)
                    (zoomCap s))
           (minimumRadius (opts s)) (maximumRadius (opts s))
         = Inr (radius (goalSpherical (final (adjustOrbit s deltaTheta deltaPhi (Fin z)))))"
    and "goalLogFov (final (adjustOrbit s deltaTheta deltaPhi (Fin z))) =
           goalLogFov (final (setFieldOfView s (Fin (exp (l + z)))))"
proof -
  define gR where "gR = radius (goalSpherical s) + Fin z *
      Math_min (if isFinite (zoomRatio s (Fin z)) then zoomRatio s (Fin z) else PosInf) (zoomCap s)"
  have L: "0 \<le> pi - 1 / 1000" using pi_ge_two by simp
  obtain cl where cl: "clamp deltaTheta (- Fin (pi - 1 / 1000) - (theta (spherical s) - theta (goalSpherical s)))
       (Fin (pi - 1 / 1000) - (theta (spherical s) - theta (goalSpherical s))) = Inr cl"
    using clamp_delta_returns [OF L] by blast
  define gT where "gT = theta (goalSpherical s) - cl"
  define gP where "gP = phi (goalSpherical s) - deltaPhi"
  have adj: "adjustOrbit s deltaTheta deltaPhi (Fin z) =
      andThen (setOrbit s (Some gT) (Some gP) (Some gR))
        (\<lambda>ch s'. setFieldOfView s' (Math_exp (goalLogFov s' + Fin z)))"
    using cl z
    by (simp add: adjustOrbit_def Let_def strictEq_def gT_def gP_def gR_def zoomRatio_def
        zoomCap_def zoomRadiusAim_def zoomLogFovAim_def)
  have "returned (setOrbit s (Some gT) (Some gP) (Some gR))"
    using az po ra by (rule setOrbit_returns)
  then obtain ch s' where ret: "setOrbit s (Some gT) (Some gP) (Some gR) = Returned ch s'"
    by (cases "setOrbit s (Some gT) (Some gP) (Some gR)") simp_all
  have s': "s' = final (setOrbit s (Some gT) (Some gP) (Some gR))" by (simp add: ret)
  have keep: "goalLogFov s' = Fin l" "opts s' = opts s"
    unfolding s' using l by (simp_all add: setOrbit_keeps_fov setOrbit_keeps_opts)
  have fin: "final (adjustOrbit s deltaTheta deltaPhi (Fin z)) =
      final (setFieldOfView s' (Fin (exp (l + z))))"
    by (simp add: adj ret keep)
  have "clamp gR (minimumRadius (opts s)) (maximumRadius (opts s)) = Inr (radius (goalSpherical s'))"
    using setOrbit_goal_radius [OF ret] by simp
  then show "clamp (radius (goalSpherical s) + Fin z *
                  Math_min (if isFinite (zoomRatio s (Fin z)) then zoomRatio s (Fin z) else PosInf)
                    (zoomCap s))
           (minimumRadius (opts s)) (maximumRadius (opts s))
         = Inr (radius (goalSpherical (final (adjustOrbit s deltaTheta deltaPhi (Fin z)))))"
    by (simp add: fin setFieldOfView_keeps_orbit gR_def)
  show "goalLogFov (final (adjustOrbit s deltaTheta deltaPhi (Fin z))) =
           goalLogFov (final (setFieldOfView s (Fin (exp (l + z)))))"
    unfolding fin using keep l by (simp add: setFieldOfView_def split: sum.splits)
qed

text \<open>
  The goal \<open>logFov\<close> that \<open>setFieldOfView\<close> leaves for the field of view
  \<open>Math.exp(l + z)\<close>, zooming out (\<open>z > 0\<close>) and zooming in (\<open>z < 0\<close>), and what the clamp of
  \<open>setOrbit\<close> makes of a radius that has gone the fraction \<open>t\<close> of its way.
\<close>

lemma fov_step_out:
  assumes lo: "Math_log (minimumFieldOfView (opts s)) \<le> Fin l"
    and hi: "Math_log (maximumFieldOfView (opts s)) = Fin Lb"
    and lt: "l < Lb" and z: "0 < z"
  shows "goalLogFov (final (setFieldOfView s (Fin (exp (l + z))))) =
           Fin (if z / (Lb - l) < 1 then l + z else Lb)"
proof -
  obtain p where p: "minimumFieldOfView (opts s) = Fin p" "0 \<le> p" "p \<le> exp l"
    using Math_log_le [OF lo] by blast
  obtain q where q: "maximumFieldOfView (opts s) = Fin q" "0 < q" "Lb = ln q"
    using Math_log_Fin [OF hi] by blast
  have eq: "exp Lb = q" using q by simp
  have x: "p < exp (l + z)"
  proof -
    have "exp l < exp (l + z)" using z by simp
    with p(3) show ?thesis by linarith
  qed
  have pq: "p \<le> q"
  proof -
    have "exp l < exp Lb" using lt by simp
    with p(3) eq show ?thesis by linarith
  qed
  show ?thesis
  proof (cases "z / (Lb - l) < 1")
    case True
    then have "l + z < Lb" using lt by (simp add: field_simps)
    then have "exp (l + z) < exp Lb" by simp
    then have "exp (l + z) < q" using eq by simp
    then have "max p (min q (exp (l + z))) = exp (l + z)" using x by simp
    then show ?thesis using True p q pq x
      by (simp add: setFieldOfView_def clamp_Fin)
  next
    case False
    then have "Lb \<le> l + z" using lt by (simp add: field_simps)
    then have "exp Lb \<le> exp (l + z)" by simp
    then have "q \<le> exp (l + z)" using eq by simp
    then have "max p (min q (exp (l + z))) = q" using pq by simp
    then show ?thesis using False p q pq
      by (simp add: setFieldOfView_def clamp_Fin)
  qed
qed

lemma fov_step_in:
  assumes lo: "Math_log (minimumFieldOfView (opts s)) = Fin Lb"
    and hi: "Fin l \<le> Math_log (maximumFieldOfView (opts s))"
    and lt: "Lb < l" and z: "z < 0"
  shows "goalLogFov (final (setFieldOfView s (Fin (exp (l + z))))) =
           Fin (if z / (Lb - l) < 1 then l + z else Lb)"
proof -
  obtain p where p: "minimumFieldOfView (opts s) = Fin p" "0 < p" "Lb = ln p"
    using Math_log_Fin [OF lo] by blast
  have ep: "exp Lb = p" using p by simp
  have x: "exp (l + z) < exp l" using z by simp
  have pl: "p < exp l"
  proof -
    have "exp Lb < exp l" using lt by simp
    with ep show ?thesis by simp
  qed
  have top: "Fin (exp (l + z)) \<le> maximumFieldOfView (opts s)"
    "Fin p \<le> maximumFieldOfView (opts s)"
  proof -
    consider "maximumFieldOfView (opts s) = PosInf"
      | q where "maximumFieldOfView (opts s) = Fin q" "exp l \<le> q"
      using Math_log_ge [OF hi] by blast
    then have "Fin (exp (l + z)) \<le> maximumFieldOfView (opts s) \<and>
        Fin p \<le> maximumFieldOfView (opts s)"
    proof cases
      case 1
      then show ?thesis by simp
    next
      case 2
      have "exp (l + z) \<le> q" "p \<le> q" using 2(2) x pl by linarith+
      then show ?thesis using 2(1) by simp
    qed
    then show "Fin (exp (l + z)) \<le> maximumFieldOfView (opts s)"
      "Fin p \<le> maximumFieldOfView (opts s)" by simp_all
  qed
  show ?thesis
  proof (cases "z / (Lb - l) < 1")
    case True
    then have "Lb < l + z" using lt by (simp add: field_simps)
    then have "exp Lb < exp (l + z)" by simp
    then have "p < exp (l + z)" using ep by simp
    then have "clamp (Fin (exp (l + z))) (Fin p) (maximumFieldOfView (opts s))
        = Inr (Fin (exp (l + z)))"
      using top by (intro clamp_inside) simp_all
    then show ?thesis using True p by (simp add: setFieldOfView_def)
  next
    case False
    then have "l + z \<le> Lb" using lt by (simp add: field_simps)
    then have "exp (l + z) \<le> exp Lb" by simp
    then have "exp (l + z) \<le> p" using ep by simp
    then have "clamp (Fin (exp (l + z))) (Fin p) (maximumFieldOfView (opts s)) = Inr (Fin p)"
      using top by (intro clamp_at_lo) simp_all
    then show ?thesis using False p by (simp add: setFieldOfView_def)
  qed
qed

lemma radius_step_out:
  assumes "lo \<le> Fin r" and "r \<le> b" and "0 < t"
  shows "clamp (Fin (r + t * (b - r))) lo (Fin b) =
           Inr (Fin (if t < 1 then r + t * (b - r) else b))"
proof (cases "t < 1")
  case True
  have "t * (b - r) \<le> 1 * (b - r)" using True assms by (intro mult_right_mono) simp_all
  moreover have "0 \<le> t * (b - r)" using assms by simp
  ultimately have "r \<le> r + t * (b - r)" "r + t * (b - r) \<le> b" by simp_all
  then have "lo \<le> Fin (r + t * (b - r))" "Fin (r + t * (b - r)) \<le> Fin b"
    using assms(1) by (cases lo; simp)+
  then show ?thesis using True by (simp add: clamp_inside)
next
  case False
  have "1 * (b - r) \<le> t * (b - r)" using False assms by (intro mult_right_mono) simp_all
  then have "b \<le> r + t * (b - r)" by simp
  moreover have "lo \<le> Fin b" using assms by (cases lo) simp_all
  ultimately show ?thesis using False by (simp add: clamp_at_hi)
qed

lemma radius_step_in:
  assumes "Fin r \<le> hi" and "a \<le> r" and "0 < t"
  shows "clamp (Fin (r + t * (a - r))) (Fin a) hi =
           Inr (Fin (if t < 1 then r + t * (a - r) else a))"
proof (cases "t < 1")
  case True
  have "1 * (a - r) \<le> t * (a - r)" using True assms by (intro mult_right_mono_neg) simp_all
  moreover have "t * (a - r) \<le> 0" using assms by (simp add: mult_le_0_iff)
  ultimately have "a \<le> r + t * (a - r)" "r + t * (a - r) \<le> r" by simp_all
  then have "Fin a \<le> Fin (r + t * (a - r))" "Fin (r + t * (a - r)) \<le> hi"
    using assms(1) by (cases hi; simp)+
  then show ?thesis using True by (simp add: clamp_inside)
next
  case False
  have "t * (a - r) \<le> 1 * (a - r)" using False assms by (intro mult_right_mono_neg) simp_all
  then have "r + t * (a - r) \<le> a" by simp
  moreover have "Fin a \<le> hi" using assms by (cases hi) simp_all
  ultimately show ?thesis using False by (simp add: clamp_at_lo)
qed


text \<open>
  C2 states the synchrony for every call with a zoom delta. \<open>adjustOrbit\<close> caps the ratio
  at \<open>maximumRadius - minimumRadius\<close>, and where the cap binds the radius lags behind. On
  \<open>zoomedOutAt15\<close> (radius \<open>2\<close> in \<open>[0, 2]\<close>, field of view \<open>15\<close> in \<open>[10, 45]\<close>) the zoom delta
  \<open>-0.5\<close> takes the field of view to its minimum \<open>10\<close>, while the radius goes from \<open>2\<close> to
  \<open>1\<close>, which is neither its minimum \<open>0\<close> nor unchanged.
\<close>

theorem C2_capped_ratio_counterexample:
  "\<not> zoomInSynchronous zoomedOutAt15
       (final (adjustOrbit zoomedOutAt15 (Fin 0) (Fin 0) (Fin (- (1 / 2)))))"
proof -
  let ?s' = "final (adjustOrbit zoomedOutAt15 (Fin 0) (Fin 0) (Fin (- (1 / 2))))"
  have h: "\<not> maximumAzimuthalAngle (opts zoomedOutAt15) < minimumAzimuthalAngle (opts zoomedOutAt15)"
    "\<not> maximumPolarAngle (opts zoomedOutAt15) < minimumPolarAngle (opts zoomedOutAt15)"
    "\<not> maximumRadius (opts zoomedOutAt15) < minimumRadius (opts zoomedOutAt15)"
    "goalLogFov zoomedOutAt15 = Fin (ln 15)"
    "- (1 / 2) \<noteq> (0::real)"
    using pi_ge_two by (simp_all add: zoomedOutAt15_eq atRest_def DEFAULT_OPTIONS_def)
  have o: "minimumRadius (opts zoomedOutAt15) = Fin 0" "maximumRadius (opts zoomedOutAt15) = Fin 2"
    "minimumFieldOfView (opts zoomedOutAt15) = Fin 10"
    "maximumFieldOfView (opts zoomedOutAt15) = Fin 45"
    "radius (goalSpherical zoomedOutAt15) = Fin 2"
    by (simp_all add: zoomedOutAt15_eq atRest_def DEFAULT_OPTIONS_def)
  note zoom = adjustOrbit_zoom [OF h, of "Fin 0" "Fin 0"]
  define q where "q = (0 - 2) / (ln 10 - ln (15::real))"
  have n: "ln 10 - ln (15::real) \<noteq> 0" using ln_facts(2) by simp
  have ratio: "zoomRatio zoomedOutAt15 (Fin (- (1 / 2))) = Fin q"
    using n by (simp add: zoomRatio_def zoomRadiusAim_def zoomLogFovAim_def o h q_def)
  have rho: "2 \<le> q"
    unfolding q_def using ln_facts(1,2) by (simp add: field_simps)
  have m: "Math_min (Fin q) (zoomCap zoomedOutAt15) = Fin 2"
    using rho by (simp add: Math_min_def zoomCap_def o)
  have "clamp (Fin 2 + Fin (- (1 / 2)) * Fin 2) (Fin 0) (Fin 2) = Inr (radius (goalSpherical ?s'))"
    using zoom(1) by (simp add: ratio o m)
  then have r: "radius (goalSpherical ?s') = Fin 1"
    by (simp add: clamp_Fin)
  have t: "\<not> - (1 / 2) / (ln 10 - ln (15::real)) < 1"
    using ln_facts(1,2) by (simp add: field_simps)
  have lo: "Math_log (minimumFieldOfView (opts zoomedOutAt15)) = Fin (ln 10)"
    and hi: "Fin (ln 15) \<le> Math_log (maximumFieldOfView (opts zoomedOutAt15))"
    by (simp_all add: o)
  have lt: "ln 10 < ln (15::real)" by simp
  have f: "goalLogFov ?s' = Fin (ln 10)"
    unfolding zoom(2) using fov_step_in [OF lo hi lt, of "- (1 / 2)"] t by simp
  have k: "opts ?s' = opts zoomedOutAt15" by (rule adjustOrbit_keeps_opts)
  show ?thesis
    using r f by (simp add: zoomInSynchronous_def k o strictEq_def)
qed

text \<open>Under the cap the radius is short of its extreme when \<open>logFov\<close> arrives.\<close>

lemma capped_short_out:
  fixes a r b l Lb z :: real
  assumes "a \<le> r" "r \<le> b" "l < Lb" "0 < z" "z \<le> Lb - l" "b - a < (b - r) / (Lb - l)"
  shows "max a (min b (r + z * (b - a))) \<noteq> b"
proof -
  have d: "0 < Lb - l" using assms by simp
  have "(b - a) * (Lb - l) < b - r" using assms(6) d by (simp add: field_simps)
  moreover have "(b - a) * z \<le> (b - a) * (Lb - l)"
    using assms by (intro mult_left_mono) simp_all
  ultimately have v: "r + z * (b - a) < b" by (simp add: mult.commute)
  have "a \<noteq> b"
  proof
    assume "a = b"
    with assms(1,2,6) show False by simp
  qed
  with assms(1,2) have "a < b" by simp
  with v show ?thesis by (simp add: max_def min_def)
qed

lemma capped_short_in:
  fixes a r b l Lb z :: real
  assumes "a \<le> r" "r \<le> b" "Lb < l" "z < 0" "Lb - l \<le> z" "b - a < (a - r) / (Lb - l)"
  shows "max a (min b (r + z * (b - a))) \<noteq> a"
proof -
  have d: "Lb - l < 0" using assms by simp
  have "a - r < (b - a) * (Lb - l)" using assms(6) d by (simp add: field_simps)
  moreover have "(b - a) * (Lb - l) \<le> (b - a) * z"
    using assms by (intro mult_left_mono) simp_all
  ultimately have v: "a < r + z * (b - a)" by (simp add: mult.commute)
  have "a \<noteq> b"
  proof
    assume "a = b"
    with assms(1,2,6) show False by simp
  qed
  with assms(1,2) have "a < b" by simp
  with v show ?thesis by (simp add: max_def min_def)
qed

text \<open>
  C2, amended: let no bounds be inverted, the goal radius \<open>r\<close> and the goal \<open>logFov\<close> \<open>l\<close> be
  finite and within their bounds, the zoom delta \<open>z\<close> be finite and not zero, and the two
  extremes the delta aims at be finite: the radius bound \<open>Rb\<close> and the logarithm \<open>Lb\<close> of the
  field-of-view bound, with \<open>Lb \<noteq> l\<close> (the field of view is not yet at that extreme). The
  bounds on the other side may be infinite, as \<open>maximumRadius\<close> is by default. With
  \<open>t = z / (Lb - l)\<close>, \<open>adjustOrbit\<close> sets the goal \<open>logFov\<close> to \<open>l + t (Lb - l)\<close> while
  \<open>t < 1\<close>, and to \<open>Lb\<close> from \<open>t = 1\<close> on. Its ratio is \<open>(Rb - r) / (Lb - l)\<close>, and

  \<^item> where the ratio does not exceed the cap \<open>maximumRadius - minimumRadius\<close>, the goal
    radius moves by the same fraction: it is \<open>r + t (Rb - r)\<close> while \<open>t < 1\<close>, and \<open>Rb\<close> from
    \<open>t = 1\<close> on;

  \<^item> where the ratio exceeds the cap, the goal radius is \<open>r + z cap\<close> clamped into the radius
    bounds, and it is not yet at \<open>Rb\<close> when the field of view arrives at its extreme
    (\<open>t \<le> 1\<close>).
\<close>

theorem C2_zoom_moves_radius_and_fov_in_step:
  assumes az: "\<not> maximumAzimuthalAngle (opts s) < minimumAzimuthalAngle (opts s)"
    and po: "\<not> maximumPolarAngle (opts s) < minimumPolarAngle (opts s)"
    and r: "radius (goalSpherical s) = Fin r" "minimumRadius (opts s) \<le> Fin r"
      "Fin r \<le> maximumRadius (opts s)"
    and l: "goalLogFov s = Fin l" "Math_log (minimumFieldOfView (opts s)) \<le> Fin l"
      "Fin l \<le> Math_log (maximumFieldOfView (opts s))"
    and z: "z \<noteq> 0"
    and Rb: "zoomRadiusAim (Fin z) (opts s) = Fin Rb"
    and Lb: "zoomLogFovAim (Fin z) (opts s) = Fin Lb" "Lb \<noteq> l"
  shows "let t = z / (Lb - l);
             s' = final (adjustOrbit s deltaTheta deltaPhi (Fin z))
         in zoomRatio s (Fin z) = Fin ((Rb - r) / (Lb - l)) \<and>
            goalLogFov s' = Fin (if t < 1 then l + t * (Lb - l) else Lb) \<and>
            (zoomRatio s (Fin z) \<le> zoomCap s \<longrightarrow>
               radius (goalSpherical s') = Fin (if t < 1 then r + t * (Rb - r) else Rb)) \<and>
            (zoomCap s < zoomRatio s (Fin z) \<longrightarrow>
               clamp (Fin r + Fin z * zoomCap s) (minimumRadius (opts s)) (maximumRadius (opts s))
                 = Inr (radius (goalSpherical s')) \<and>
               (t \<le> 1 \<longrightarrow> radius (goalSpherical s') \<noteq> Fin Rb))"
proof -
  define t where "t = z / (Lb - l)"
  define s' where "s' = final (adjustOrbit s deltaTheta deltaPhi (Fin z))"
  define q where "q = (Rb - r) / (Lb - l)"
  have ra: "\<not> maximumRadius (opts s) < minimumRadius (opts s)"
    using r(2,3) by (rule num_le_trans)
  note zoom = adjustOrbit_zoom [OF az po ra l(1) z, of deltaTheta deltaPhi, folded s'_def]
  have ratio: "zoomRatio s (Fin z) = Fin q"
    using Rb Lb r(1) l(1) by (simp add: zoomRatio_def q_def)
  have tz: "t * (Lb - l) = z" using Lb(2) by (simp add: t_def)
  have tq: "z * q = t * (Rb - r)" by (simp add: t_def q_def)
  have e: "l + t * (Lb - l) = l + z" by (simp add: tz)
  have fov: "goalLogFov s' = Fin (if t < 1 then l + t * (Lb - l) else Lb)"
    and t0: "0 < t"
  proof -
    show "goalLogFov s' = Fin (if t < 1 then l + t * (Lb - l) else Lb)"
    proof (cases "0 < z")
      case True
      then have hi: "Math_log (maximumFieldOfView (opts s)) = Fin Lb"
        using Lb(1) by (simp add: zoomLogFovAim_def)
      then have "l < Lb" using l(3) Lb(2) by simp
      from fov_step_out [OF l(2) hi this True] show ?thesis
        unfolding e zoom(2) by (simp add: t_def)
    next
      case False
      then have z0: "z < 0" using z by simp
      then have lo: "Math_log (minimumFieldOfView (opts s)) = Fin Lb"
        using Lb(1) by (simp add: zoomLogFovAim_def)
      then have "Lb < l" using l(2) Lb(2) by simp
      from fov_step_in [OF lo l(3) this z0] show ?thesis
        unfolding e zoom(2) by (simp add: t_def)
    qed
    show "0 < t"
    proof (cases "0 < z")
      case True
      then have "Math_log (maximumFieldOfView (opts s)) = Fin Lb"
        using Lb(1) by (simp add: zoomLogFovAim_def)
      then have "l < Lb" using l(3) Lb(2) by simp
      then show ?thesis using True by (simp add: t_def)
    next
      case False
      then have z0: "z < 0" using z by simp
      then have "Math_log (minimumFieldOfView (opts s)) = Fin Lb"
        using Lb(1) by (simp add: zoomLogFovAim_def)
      then have "Lb < l" using l(2) Lb(2) by simp
      then show ?thesis using z0 by (simp add: t_def zero_less_divide_iff)
    qed
  qed
  have step: "radius (goalSpherical s') = Fin (if t < 1 then r + t * (Rb - r) else Rb)"
    if cap: "zoomRatio s (Fin z) \<le> zoomCap s"
  proof -
    have m: "Math_min (if isFinite (zoomRatio s (Fin z)) then zoomRatio s (Fin z) else PosInf)
               (zoomCap s) = Fin q"
      using cap by (simp add: ratio Math_min_Fin_le)
    have c: "clamp (Fin (r + t * (Rb - r))) (minimumRadius (opts s)) (maximumRadius (opts s))
               = Inr (radius (goalSpherical s'))"
      using zoom(1) by (simp add: m r(1) tq)
    show ?thesis
    proof (cases "0 < z")
      case True
      then have b: "maximumRadius (opts s) = Fin Rb" using Rb by (simp add: zoomRadiusAim_def)
      have "r \<le> Rb" using r(3) b by simp
      from radius_step_out [OF r(2) this t0] c show ?thesis by (simp add: b)
    next
      case False
      then have a: "minimumRadius (opts s) = Fin Rb" using Rb by (simp add: zoomRadiusAim_def)
      have "Rb \<le> r" using r(2) a by simp
      from radius_step_in [OF r(3) this t0] c show ?thesis by (simp add: a)
    qed
  qed
  have capped: "clamp (Fin r + Fin z * zoomCap s) (minimumRadius (opts s)) (maximumRadius (opts s))
                 = Inr (radius (goalSpherical s')) \<and>
               (t \<le> 1 \<longrightarrow> radius (goalSpherical s') \<noteq> Fin Rb)"
    if cap: "zoomCap s < zoomRatio s (Fin z)"
  proof -
    have m: "Math_min (if isFinite (zoomRatio s (Fin z)) then zoomRatio s (Fin z) else PosInf)
               (zoomCap s) = zoomCap s"
      using cap by (simp add: ratio Math_min_cap)
    have c: "clamp (Fin r + Fin z * zoomCap s) (minimumRadius (opts s)) (maximumRadius (opts s))
               = Inr (radius (goalSpherical s'))"
      using zoom(1) by (simp add: m r(1))
    obtain a b where ab: "minimumRadius (opts s) = Fin a" "maximumRadius (opts s) = Fin b"
      using cap r(2,3)
      by (cases "minimumRadius (opts s)"; cases "maximumRadius (opts s)")
         (simp_all add: ratio zoomCap_def minus_num_def)
    have arb: "a \<le> r" "r \<le> b" using r(2,3) ab by simp_all
    have cq: "b - a < q" using cap by (simp add: ratio zoomCap_def ab)
    have rad: "radius (goalSpherical s') = Fin (max a (min b (r + z * (b - a))))"
      using c arb by (simp add: zoomCap_def ab clamp_Fin)
    have "max a (min b (r + z * (b - a))) \<noteq> Rb" if t1: "t \<le> 1"
    proof (cases "0 < z")
      case True
      then have b: "b = Rb" using Rb ab by (simp add: zoomRadiusAim_def)
      have "Math_log (maximumFieldOfView (opts s)) = Fin Lb"
        using Lb(1) True by (simp add: zoomLogFovAim_def)
      then have lt: "l < Lb" using l(3) Lb(2) by simp
      then have "z \<le> Lb - l" using t1 by (simp add: t_def field_simps)
      from capped_short_out [OF arb lt True this] cq show ?thesis
        by (simp add: q_def b)
    next
      case False
      then have z0: "z < 0" using z by simp
      then have a: "a = Rb" using Rb ab by (simp add: zoomRadiusAim_def)
      have "Math_log (minimumFieldOfView (opts s)) = Fin Lb"
        using Lb(1) z0 by (simp add: zoomLogFovAim_def)
      then have lt: "Lb < l" using l(2) Lb(2) by simp
      then have "Lb - l \<le> z" using t1 by (simp add: t_def field_simps)
      from capped_short_in [OF arb lt z0 this] cq show ?thesis
        by (simp add: q_def a)
    qed
    with c rad show ?thesis by simp
  qed
  show ?thesis
    unfolding Let_def t_def [symmetric] s'_def [symmetric]
    using ratio fov step capped by (simp add: q_def)
qed

text \<open>
  Where the field of view is already at the extreme the zoom delta aims at (\<open>Lb = l\<close>),
  \<open>adjustOrbit\<close> divides by zero and falls back on the cap: the goal \<open>logFov\<close> stays and the
  goal radius is \<open>r + z cap\<close> clamped into the radius bounds.
\<close>

lemma zoom_at_fov_extreme:
  assumes az: "\<not> maximumAzimuthalAngle (opts s) < minimumAzimuthalAngle (opts s)"
    and po: "\<not> maximumPolarAngle (opts s) < minimumPolarAngle (opts s)"
    and r: "radius (goalSpherical s) = Fin r" "minimumRadius (opts s) \<le> Fin r"
      "Fin r \<le> maximumRadius (opts s)"
    and l: "goalLogFov s = Fin l" "Math_log (minimumFieldOfView (opts s)) \<le> Fin l"
      "Fin l \<le> Math_log (maximumFieldOfView (opts s))"
    and z: "z \<noteq> 0"
    and Lb: "zoomLogFovAim (Fin z) (opts s) = Fin l"
  shows "goalLogFov (final (adjustOrbit s deltaTheta deltaPhi (Fin z))) = Fin l"
    and "clamp (Fin r + Fin z * zoomCap s) (minimumRadius (opts s)) (maximumRadius (opts s))
           = Inr (radius (goalSpherical (final (adjustOrbit s deltaTheta deltaPhi (Fin z)))))"
proof -
  have ra: "\<not> maximumRadius (opts s) < minimumRadius (opts s)"
    using r(2,3) by (rule num_le_trans)
  note zoom = adjustOrbit_zoom [OF az po ra l(1) z, of deltaTheta deltaPhi]
  have n: "\<not> isFinite (zoomRatio s (Fin z))"
    using Lb l(1)
    by (cases "zoomRadiusAim (Fin z) (opts s) - radius (goalSpherical s)")
       (simp_all add: zoomRatio_def)
  have c: "zoomCap s \<noteq> NaN"
    using r(2,3)
    by (cases "minimumRadius (opts s)"; cases "maximumRadius (opts s)")
       (simp_all add: zoomCap_def minus_num_def)
  have m: "Math_min PosInf (zoomCap s) = zoomCap s"
    using c by (cases "zoomCap s") (simp_all add: Math_min_def)
  show "clamp (Fin r + Fin z * zoomCap s) (minimumRadius (opts s)) (maximumRadius (opts s))
           = Inr (radius (goalSpherical (final (adjustOrbit s deltaTheta deltaPhi (Fin z)))))"
    using zoom(1) by (simp add: n m r(1))
  obtain p where p: "minimumFieldOfView (opts s) = Fin p" "0 \<le> p" "p \<le> exp l"
    using Math_log_le [OF l(2)] by blast
  show "goalLogFov (final (adjustOrbit s deltaTheta deltaPhi (Fin z))) = Fin l"
  proof (cases "0 < z")
    case True
    then have "Math_log (maximumFieldOfView (opts s)) = Fin l"
      using Lb by (simp add: zoomLogFovAim_def)
    then obtain q where q: "maximumFieldOfView (opts s) = Fin q" "0 < q" "l = ln q"
      using Math_log_Fin by blast
    have e: "exp l = q" using q by simp
    have "exp l < exp (l + z)" using True by simp
    then have "q \<le> exp (l + z)" using e by simp
    then have "max p (min q (exp (l + z))) = q" using p(3) e by simp
    then show ?thesis
      unfolding zoom(2) using p q e by (simp add: setFieldOfView_def clamp_Fin)
  next
    case False
    then have z0: "z < 0" using z by simp
    then have "Math_log (minimumFieldOfView (opts s)) = Fin l"
      using Lb by (simp add: zoomLogFovAim_def)
    then obtain p' where p': "minimumFieldOfView (opts s) = Fin p'" "0 < p'" "l = ln p'"
      using Math_log_Fin by blast
    have e: "exp l = p'" using p' by simp
    have "exp (l + z) < exp l" using z0 by simp
    then have x: "exp (l + z) \<le> p'" using e by simp
    have "Fin p' \<le> maximumFieldOfView (opts s)"
      using Math_log_ge [OF l(3)] e by auto
    then have "clamp (Fin (exp (l + z))) (Fin p') (maximumFieldOfView (opts s)) = Inr (Fin p')"
      using x by (rule clamp_at_lo)
    then show ?thesis
      unfolding zoom(2) using p' by (simp add: setFieldOfView_def)
  qed
qed

text \<open>
  Towards an infinite radius bound there is no step to share: a positive zoom delta with
  \<open>maximumRadius = Infinity\<close>, the default, sets the goal radius to \<open>Infinity\<close> at once,
  whatever the field of view does.
\<close>

lemma zoom_out_unbounded_radius:
  assumes az: "\<not> maximumAzimuthalAngle (opts s) < minimumAzimuthalAngle (opts s)"
    and po: "\<not> maximumPolarAngle (opts s) < minimumPolarAngle (opts s)"
    and r: "radius (goalSpherical s) = Fin r" "minimumRadius (opts s) \<le> Fin r"
    and l: "goalLogFov s = Fin l"
    and z: "0 < z"
    and inf: "maximumRadius (opts s) = PosInf"
  shows "radius (goalSpherical (final (adjustOrbit s deltaTheta deltaPhi (Fin z)))) = PosInf"
proof -
  have ra: "\<not> maximumRadius (opts s) < minimumRadius (opts s)"
    by (cases "minimumRadius (opts s)") (simp_all add: inf)
  have z0: "z \<noteq> 0" using z by simp
  have n: "\<not> isFinite (zoomRatio s (Fin z))"
    using z r(1) inf
    by (cases "zoomLogFovAim (Fin z) (opts s) - goalLogFov s")
       (simp_all add: zoomRatio_def zoomRadiusAim_def minus_num_def)
  have c: "zoomCap s = PosInf"
    using r(2) inf by (cases "minimumRadius (opts s)") (simp_all add: zoomCap_def minus_num_def)
  have "clamp PosInf (minimumRadius (opts s)) PosInf = Inr PosInf"
    using r(2) by (cases "minimumRadius (opts s)") (simp_all add: clamp_def Math_max_def Math_min_def)
  with adjustOrbit_zoom(1) [OF az po ra l z0, of deltaTheta deltaPhi]
  show ?thesis
    using z by (simp add: n c r(1) inf Math_min_def)
qed

text \<open>
  The witness. The example of the spec: radius \<open>1\<close>, field of view \<open>45\<close>,
  \<open>maximumRadius = 2\<close>, \<open>minimumFieldOfView = 10\<close>, and the large negative zoom delta \<open>-100\<close>:
  the goal radius goes to \<open>minimumRadius = 0\<close> and the goal field of view to \<open>10\<close>. The
  default options (\<open>maximumRadius = Infinity\<close>) and the zoom delta \<open>-0.25\<close>: radius and
  \<open>logFov\<close> both go the fraction \<open>0.25 / (ln 45 - ln 10)\<close> of their way. And \<open>zoomedOutAt15\<close>,
  where the cap binds, with the zoom delta \<open>-0.25\<close>: the radius goes from \<open>2\<close> to \<open>1.5\<close>.
\<close>

theorem C2_spec_example_witness:
  "radius (goalSpherical (final (adjustOrbit specZoom (Fin 0) (Fin 0) (Fin (- 100))))) = Fin 0 \<and>
   goalLogFov (final (adjustOrbit specZoom (Fin 0) (Fin 0) (Fin (- 100)))) = Fin (ln 10) \<and>
   radius (goalSpherical (final (adjustOrbit atRest (Fin 0) (Fin 0) (Fin (- (1 / 4))))))
     = Fin (1 - (1 / 4) / (ln 45 - ln 10)) \<and>
   goalLogFov (final (adjustOrbit atRest (Fin 0) (Fin 0) (Fin (- (1 / 4))))) = Fin (ln 45 - 1 / 4) \<and>
   radius (goalSpherical (final (adjustOrbit zoomedOutAt15 (Fin 0) (Fin 0) (Fin (- (1 / 4))))))
     = Fin (3 / 2)"
proof -
  have a: "\<not> maximumAzimuthalAngle (opts specZoom) < minimumAzimuthalAngle (opts specZoom)"
    "\<not> maximumPolarAngle (opts specZoom) < minimumPolarAngle (opts specZoom)"
    "radius (goalSpherical specZoom) = Fin 1"
    "minimumRadius (opts specZoom) \<le> Fin 1" "Fin 1 \<le> maximumRadius (opts specZoom)"
    "goalLogFov specZoom = Fin (ln 45)"
    "Math_log (minimumFieldOfView (opts specZoom)) \<le> Fin (ln 45)"
    "Fin (ln 45) \<le> Math_log (maximumFieldOfView (opts specZoom))"
    "- 100 \<noteq> (0::real)"
    "zoomRadiusAim (Fin (- 100)) (opts specZoom) = Fin 0"
    "zoomLogFovAim (Fin (- 100)) (opts specZoom) = Fin (ln 10)"
    "ln 10 \<noteq> ln (45::real)"
    using pi_ge_two
    by (simp_all add: specZoom_eq atRest_def DEFAULT_OPTIONS_def zoomRadiusAim_def
        zoomLogFovAim_def)
  have b: "\<not> maximumAzimuthalAngle (opts atRest) < minimumAzimuthalAngle (opts atRest)"
    "\<not> maximumPolarAngle (opts atRest) < minimumPolarAngle (opts atRest)"
    "radius (goalSpherical atRest) = Fin 1"
    "minimumRadius (opts atRest) \<le> Fin 1" "Fin 1 \<le> maximumRadius (opts atRest)"
    "goalLogFov atRest = Fin (ln 45)"
    "Math_log (minimumFieldOfView (opts atRest)) \<le> Fin (ln 45)"
    "Fin (ln 45) \<le> Math_log (maximumFieldOfView (opts atRest))"
    "- (1 / 4) \<noteq> (0::real)"
    "zoomRadiusAim (Fin (- (1 / 4))) (opts atRest) = Fin 0"
    "zoomLogFovAim (Fin (- (1 / 4))) (opts atRest) = Fin (ln 10)"
    "ln 10 \<noteq> ln (45::real)"
    using pi_ge_two
    by (simp_all add: atRest_def DEFAULT_OPTIONS_def zoomRadiusAim_def zoomLogFovAim_def)
  have c: "\<not> maximumAzimuthalAngle (opts zoomedOutAt15) < minimumAzimuthalAngle (opts zoomedOutAt15)"
    "\<not> maximumPolarAngle (opts zoomedOutAt15) < minimumPolarAngle (opts zoomedOutAt15)"
    "radius (goalSpherical zoomedOutAt15) = Fin 2"
    "minimumRadius (opts zoomedOutAt15) \<le> Fin 2" "Fin 2 \<le> maximumRadius (opts zoomedOutAt15)"
    "goalLogFov zoomedOutAt15 = Fin (ln 15)"
    "Math_log (minimumFieldOfView (opts zoomedOutAt15)) \<le> Fin (ln 15)"
    "Fin (ln 15) \<le> Math_log (maximumFieldOfView (opts zoomedOutAt15))"
    "- (1 / 4) \<noteq> (0::real)"
    "zoomRadiusAim (Fin (- (1 / 4))) (opts zoomedOutAt15) = Fin 0"
    "zoomLogFovAim (Fin (- (1 / 4))) (opts zoomedOutAt15) = Fin (ln 10)"
    "ln 10 \<noteq> ln (15::real)"
    using pi_ge_two
    by (simp_all add: zoomedOutAt15_eq atRest_def DEFAULT_OPTIONS_def zoomRadiusAim_def
        zoomLogFovAim_def)
  have n: "ln 10 - ln (45::real) \<noteq> 0" "ln 10 - ln (15::real) \<noteq> 0" by simp_all
  have cap: "zoomCap specZoom = Fin 2" "zoomCap atRest = PosInf" "zoomCap zoomedOutAt15 = Fin 2"
    by (simp_all add: zoomCap_def specZoom_eq zoomedOutAt15_eq atRest_def DEFAULT_OPTIONS_def
        minus_num_def)
  have q1: "(0 - 1) / (ln 10 - ln (45::real)) \<le> 2"
    using ln_facts(3) by (simp add: field_simps)
  have q3: "2 < (0 - 2) / (ln 10 - ln (15::real))"
    using ln_facts(1,2) by (simp add: field_simps)
  have t1: "\<not> (- 100) / (ln 10 - ln (45::real)) < 1"
    using ln_facts(3,4) by (simp add: field_simps)
  have t2: "- (1 / 4) / (ln 10 - ln (45::real)) < 1"
    using ln_facts(3) by (simp add: field_simps)
  from C2_zoom_moves_radius_and_fov_in_step [OF a, of "Fin 0" "Fin 0"] q1 t1
  have 1: "radius (goalSpherical (final (adjustOrbit specZoom (Fin 0) (Fin 0) (Fin (- 100)))))
      = Fin 0 \<and>
    goalLogFov (final (adjustOrbit specZoom (Fin 0) (Fin 0) (Fin (- 100)))) = Fin (ln 10)"
    by (simp add: Let_def cap)
  from C2_zoom_moves_radius_and_fov_in_step [OF b, of "Fin 0" "Fin 0"] t2
  have 2: "radius (goalSpherical (final (adjustOrbit atRest (Fin 0) (Fin 0) (Fin (- (1 / 4))))))
      = Fin (1 - (1 / 4) / (ln 45 - ln 10)) \<and>
    goalLogFov (final (adjustOrbit atRest (Fin 0) (Fin 0) (Fin (- (1 / 4))))) = Fin (ln 45 - 1 / 4)"
    using n by (simp add: Let_def cap field_simps)
  note capped = C2_zoom_moves_radius_and_fov_in_step [OF c, of "Fin 0" "Fin 0"]
  have "zoomRatio zoomedOutAt15 (Fin (- (1 / 4))) = Fin ((0 - 2) / (ln 10 - ln 15))"
    using capped by (simp add: Let_def)
  then have "zoomCap zoomedOutAt15 < zoomRatio zoomedOutAt15 (Fin (- (1 / 4)))"
    using q3 by (simp add: cap)
  with capped
  have "clamp (Fin 2 + Fin (- (1 / 4)) * zoomCap zoomedOutAt15)
          (minimumRadius (opts zoomedOutAt15)) (maximumRadius (opts zoomedOutAt15)) =
        Inr (radius (goalSpherical (final (adjustOrbit zoomedOutAt15 (Fin 0) (Fin 0)
          (Fin (- (1 / 4)))))))"
    by (simp add: Let_def)
  moreover have "minimumRadius (opts zoomedOutAt15) = Fin 0"
    "maximumRadius (opts zoomedOutAt15) = Fin 2"
    by (simp_all add: zoomedOutAt15_eq atRest_def DEFAULT_OPTIONS_def)
  ultimately
  have 3: "radius (goalSpherical (final (adjustOrbit zoomedOutAt15 (Fin 0) (Fin 0)
      (Fin (- (1 / 4)))))) = Fin (3 / 2)"
    by (simp add: cap clamp_Fin)
  from 1 2 3 show ?thesis by blast
qed

section \<open>C3: the gate of the input handlers\<close>

text \<open>
  The pointer-move and wheel handlers test \<open>canInteract\<close> first: where it is false, a mouse
  move, a touch move and a wheel event leave the state untouched.
\<close>

lemma gated_move_and_wheel:
  assumes "\<not> canInteract s"
  shows "deliver s (MouseMove p) = Returned () s"
    and "deliver s (TouchMove touches) = Returned () s"
    and "deliver s (WheelEvent deltaY deltaMode) = Returned () s"
  using assms by (simp_all add: deliver_def onPointerMove_def onWheel_def)

text \<open>
  The pointer-down and pointer-up handlers write the gesture state only: the orbit and the
  field of view, goal and rendered, are as before.
\<close>

lemma down_up_keep_orbit:
  assumes "event = MouseDown p \<or> event = TouchStart touches \<or> event = MouseUp \<or> event = TouchEnd"
  shows "goalSpherical (final (deliver s event)) = goalSpherical s"
    and "spherical (final (deliver s event)) = spherical s"
    and "goalLogFov (final (deliver s event)) = goalLogFov s"
    and "logFov (final (deliver s event)) = logFov s"
  using assms
  by (auto simp add: deliver_def onPointerDown_def onPointerUp_def handleSinglePointerDown_def
      dispatchEvent_def Let_def split: list.splits)

text \<open>
  While interaction is not enabled and \<open>onWheel\<close> is not registered, no event reaches a
  handler.
\<close>

lemma not_enabled_no_change:
  assumes "\<not> interactionEnabled s" and "\<not> element_listensWheel s"
  shows "deliver s event = Returned () s"
  using assms by (cases event) (simp_all add: deliver_def)

text \<open>
  C3 at the failing input. \<open>onKeyDown\<close> does not test \<open>canInteract\<close>. On \<open>focusGated\<close>
  (interaction enabled, policy \<open>allow-when-focused\<close>, element not active) \<open>canInteract\<close> is
  false, and the key \<open>RIGHT\<close> moves the goal azimuth from \<open>0\<close> to \<open>-\<pi>/8\<close>.
\<close>

theorem C3_keydown_is_not_gated:
  "\<not> canInteract focusGated \<and>
   theta (goalSpherical focusGated) = Fin 0 \<and>
   theta (goalSpherical (final (deliver focusGated (KeyDown RIGHT)))) = Fin (- (pi / 8))"
  using pi_ge_two EPS_bounds wrapAngle_id [of "pi / 8"]
  by (simp add: focusGated_eq atRest_def canInteract_def deliver_def onKeyDown_def RIGHT_def
      PAGE_UP_def PAGE_DOWN_def UP_def DOWN_def LEFT_def userAdjustOrbit_def adjustOrbit_def
      KEYBOARD_ORBIT_INCREMENT_def
      DEFAULT_OPTIONS_def setOrbit_def clamp_def Math_max_def Math_min_def Let_def
      strictEq_def makeSafe_def dispatchEvent_def)

section \<open>C4: setOrbit twice\<close>

lemma safePolar_between:
  assumes "Fin EPS \<le> lo" and "hi \<le> Fin (pi - EPS)" and "lo \<le> n" and "n \<le> hi"
  shows "Math_max (Fin EPS) (Math_min (Fin (pi - EPS)) n) = n"
  using assms
  by (cases lo; cases hi; cases n) (auto simp add: Math_max_def Math_min_def)

text \<open>
  Where the polar bounds lie within \<open>[\<epsilon>, \<pi> - \<epsilon>]\<close> (as the default bounds do) and neither a
  bound nor an argument is \<open>NaN\<close>, the second call does return false: after a call of
  \<open>setOrbit\<close> that has returned, the same call returns false and leaves the state as it is.
\<close>

lemma setOrbit_twice:
  assumes ret: "setOrbit s a b r = Returned ch s1"
    and az: "minimumAzimuthalAngle (opts s) \<noteq> NaN" "maximumAzimuthalAngle (opts s) \<noteq> NaN"
    and po: "Fin EPS \<le> minimumPolarAngle (opts s)" "maximumPolarAngle (opts s) \<le> Fin (pi - EPS)"
    and ra: "minimumRadius (opts s) \<noteq> NaN" "maximumRadius (opts s) \<noteq> NaN"
    and args: "orKeep a (theta (goalSpherical s)) \<noteq> NaN"
      "orKeep b (phi (goalSpherical s)) \<noteq> NaN"
      "orKeep r (radius (goalSpherical s)) \<noteq> NaN"
  shows "setOrbit s1 a b r = Returned False s1"
proof -
  let ?unbounded = "\<not> isFinite (minimumAzimuthalAngle (opts s)) \<and>
                    \<not> isFinite (maximumAzimuthalAngle (opts s))"
  have pn: "minimumPolarAngle (opts s) \<noteq> NaN" "maximumPolarAngle (opts s) \<noteq> NaN"
    using po by auto
  obtain nT where cT: "clamp (orKeep a (theta (goalSpherical s)))
      (minimumAzimuthalAngle (opts s)) (maximumAzimuthalAngle (opts s)) = Inr nT"
    using ret by (auto simp add: setOrbit_def Let_def split: sum.splits)
  obtain nP where cP: "clamp (orKeep b (phi (goalSpherical s)))
      (minimumPolarAngle (opts s)) (maximumPolarAngle (opts s)) = Inr nP"
    using ret by (auto simp add: setOrbit_def Let_def split: sum.splits)
  obtain nR where cR: "clamp (orKeep r (radius (goalSpherical s)))
      (minimumRadius (opts s)) (maximumRadius (opts s)) = Inr nR"
    using ret by (auto simp add: setOrbit_def Let_def split: sum.splits)
  note iT = clamp_idem [OF cT args(1) az]
  note iP = clamp_idem [OF cP args(2) pn]
  note iR = clamp_idem [OF cR args(3) ra]
  have safe: "Math_max (Fin EPS) (Math_min (Fin (pi - EPS)) nP) = nP"
    using po iP(3,4) by (rule safePolar_between)
  have goal: "goalSpherical s1 = \<lparr>radius = nR, phi = nP, theta = nT\<rparr>"
    using ret cT cP cR safe
    by (auto simp add: setOrbit_def Let_def strictEq_def makeSafe_def split: if_splits)
  have o: "opts s1 = opts s" using setOrbit_keeps_opts [of s a b r] by (simp add: ret)
  have cur: "theta (spherical s1) =
      (if ?unbounded then wrapAngle (theta (spherical s) - nT) + nT else theta (spherical s))"
    using setOrbit_current [of s a b r] cT by (simp add: ret)
  have cT': "clamp (orKeep a (theta (goalSpherical s1)))
      (minimumAzimuthalAngle (opts s1)) (maximumAzimuthalAngle (opts s1)) = Inr nT"
    unfolding o goal using clamp_orKeep_idem [OF cT args(1) az] by simp
  have cP': "clamp (orKeep b (phi (goalSpherical s1)))
      (minimumPolarAngle (opts s1)) (maximumPolarAngle (opts s1)) = Inr nP"
    unfolding o goal using clamp_orKeep_idem [OF cP args(2) pn] by simp
  have cR': "clamp (orKeep r (radius (goalSpherical s1)))
      (minimumRadius (opts s1)) (maximumRadius (opts s1)) = Inr nR"
    unfolding o goal using clamp_orKeep_idem [OF cR args(3) ra] by simp
  have again: "(if ?unbounded then wrapAngle (theta (spherical s1) - nT) + nT
                else theta (spherical s1)) = theta (spherical s1)"
    using cur rewrap_idem [of "theta (spherical s)" nT] by simp
  show ?thesis
    using cT' cP' cR' again iT(2) iP(2) iR(2)
    by (auto simp add: setOrbit_def [of s1] Let_def o goal strictEq_def)
qed

text \<open>
  C4 at the failing input. With \<open>minimumPolarAngle = 0\<close>, \<open>setOrbit(0, 0, 1)\<close> returns true
  and stores the polar angle \<open>\<epsilon>\<close> that \<open>makeSafe\<close> makes of the clamped \<open>0\<close>. The same call
  again compares the clamped \<open>0\<close> with the stored \<open>\<epsilon>\<close>, returns true a second time, and
  leaves the state exactly as the first call left it: it reports a change where no goal
  component changed.
\<close>

theorem C4_second_setOrbit_returns_true:
  "setOrbit polarZero (Some (Fin 0)) (Some (Fin 0)) (Some (Fin 1)) =
     Returned True (final (setOrbit polarZero (Some (Fin 0)) (Some (Fin 0)) (Some (Fin 1)))) \<and>
   setOrbit (final (setOrbit polarZero (Some (Fin 0)) (Some (Fin 0)) (Some (Fin 1))))
       (Some (Fin 0)) (Some (Fin 0)) (Some (Fin 1)) =
     Returned True (final (setOrbit polarZero (Some (Fin 0)) (Some (Fin 0)) (Some (Fin 1))))"
  using pi_ge_two EPS_bounds
  by (simp add: setOrbit_polarZero) (simp add: polarZero_eq atRest_def
      DEFAULT_OPTIONS_def setOrbit_def clamp_def Math_max_def Math_min_def Let_def wrapAngle_Fin
      strictEq_def makeSafe_def)

section \<open>C5: the range of wrapAngle\<close>

text \<open>
  C5 states that \<open>wrapAngle\<close> maps every finite angle into the half-open interval
  \<open>(-\<pi>, \<pi>]\<close>, congruent to its argument modulo \<open>2\<pi>\<close>. The code subtracts a floor, so the
  fraction it keeps lies in \<open>[0, 1)\<close> and the result in \<open>[-\<pi>, \<pi>)\<close>: the angle \<open>\<pi>\<close> itself is
  sent to \<open>-\<pi>\<close>, which is outside \<open>(-\<pi>, \<pi>]\<close>.
\<close>

theorem C5_wrapAngle_pi_counterexample:
  "\<not> inHalfOpenLeft (wrapAngle (Fin pi))"
  by (simp add: wrapAngle_Fin inHalfOpenLeft_def)

text \<open>
  C5, amended: for every finite angle \<open>x\<close>, \<open>wrapAngle x\<close> is a finite angle \<open>y\<close> with
  \<open>-\<pi> \<le> y < \<pi>\<close> that differs from \<open>x\<close> by an integer multiple of \<open>2\<pi>\<close>.
\<close>

theorem C5_wrapAngle_range:
  "\<exists>y. wrapAngle (Fin x) = Fin y \<and> - pi \<le> y \<and> y < pi \<and>
       (\<exists>k::int. y = x + 2 * pi * of_int k)"
proof -
  define n where "n = (x + pi) / (2 * pi)"
  define y where "y = frac n * 2 * pi - pi"
  have w: "wrapAngle (Fin x) = Fin y" by (simp add: wrapAngle_Fin y_def n_def)
  have f0: "0 \<le> frac n" and f1: "frac n < 1" by (simp_all add: frac_lt_1)
  have lo: "- pi \<le> y" using f0 pi_gt_zero by (simp add: y_def)
  have hi: "y < pi" using f1 pi_gt_zero by (simp add: y_def)
  have "y = (n - of_int \<lfloor>n\<rfloor>) * 2 * pi - pi" by (simp add: y_def frac_def)
  also have "\<dots> = x + 2 * pi * of_int (- \<lfloor>n\<rfloor>)"
    using pi_gt_zero by (simp add: n_def field_simps)
  finally have "\<exists>k::int. y = x + 2 * pi * of_int k" by blast
  with w lo hi show ?thesis by blast
qed

section \<open>C6: update corrects the long path\<close>

lemma update_theta:
  assumes "\<not> isFinite (minimumAzimuthalAngle (opts s))"
    and "\<not> isFinite (maximumAzimuthalAngle (opts s))"
    and "theta (spherical s) = Fin c"
    and "theta (goalSpherical s) = Fin g"
    and "pi < \<bar>c - g\<bar>"
  shows "theta (spherical (update D s time delta)) =
           thetaDamper D (Fin (c - sgn (c - g) * 2 * pi)) (Fin g) delta (Fin pi)"
proof -
  from assms(5) have "c \<noteq> g" by auto
  with assms show ?thesis
    by (simp add: update_def isStationary_def strictEq_def Let_def moveCamera_def makeSafe_def
        dispatchEvent_def)
qed

lemma halfway_noOvershoot: "noOvershoot (thetaDamper halfwayDampers)"
  unfolding noOvershoot_def
proof (intro allI)
  fix x g :: real and t n :: num
  show "\<exists>y. thetaDamper halfwayDampers (Fin x) (Fin g) t n = Fin y \<and> min x g \<le> y \<and> y \<le> max x g"
    by (rule exI [of _ "(x + g) / 2"]) (auto simp add: halfwayDampers_def min_def max_def)
qed

text \<open>
  C6: let neither azimuth bound be finite, and the rendered azimuth \<open>c\<close> and the goal
  azimuth \<open>g\<close> be finite and more than \<open>\<pi>\<close> apart. Then \<open>update\<close> first moves the rendered
  azimuth by a full turn towards the goal, to \<open>w = c - sign(c - g) 2\<pi>\<close>, and hands \<open>w\<close>, not
  \<open>c\<close>, to the azimuth damper: the new rendered azimuth is what the damper returns for \<open>w\<close>
  and the goal \<open>g\<close>, whatever the damper. The goal stays \<open>g\<close>. The corrected azimuth \<open>w\<close> is
  \<open>\<bar>\<bar>c - g\<bar> - 2\<pi>\<bar>\<close> from the goal, strictly nearer than \<open>c\<close> was; when \<open>c\<close> and \<open>g\<close> are less
  than \<open>2\<pi>\<close> apart it is less than \<open>\<pi>\<close> from the goal and on the other side of it than \<open>c\<close>:
  the way from \<open>w\<close> to \<open>g\<close> is the way through the seam, not back through \<open>0\<close>. With a damper
  that does not overshoot, the new rendered azimuth \<open>c'\<close> lies between \<open>w\<close> and \<open>g\<close>,
  strictly nearer to the goal than \<open>c\<close> was and not on the side of \<open>c\<close>.
\<close>

theorem C6_update_takes_the_short_way:
  assumes "\<not> isFinite (minimumAzimuthalAngle (opts s))"
    and "\<not> isFinite (maximumAzimuthalAngle (opts s))"
    and "theta (spherical s) = Fin c"
    and "theta (goalSpherical s) = Fin g"
    and far: "pi < \<bar>c - g\<bar>"
  shows "let w = c - sgn (c - g) * 2 * pi;
             s' = update D s time delta
         in theta (spherical s') = thetaDamper D (Fin w) (Fin g) delta (Fin pi) \<and>
            theta (goalSpherical s') = Fin g \<and>
            \<bar>w - g\<bar> = \<bar>\<bar>c - g\<bar> - 2 * pi\<bar> \<and>
            \<bar>w - g\<bar> < \<bar>c - g\<bar> \<and>
            (\<bar>c - g\<bar> < 2 * pi \<longrightarrow> \<bar>w - g\<bar> < pi \<and> (w - g) * (c - g) < 0) \<and>
            (noOvershoot (thetaDamper D) \<longrightarrow>
               (\<exists>c'. theta (spherical s') = Fin c' \<and> min w g \<le> c' \<and> c' \<le> max w g \<and>
                     \<bar>c' - g\<bar> < \<bar>c - g\<bar> \<and>
                     (\<bar>c - g\<bar> \<le> 2 * pi \<longrightarrow> (c' - g) * (c - g) \<le> 0)))"
proof -
  define w where "w = c - sgn (c - g) * 2 * pi"
  define s' where "s' = update D s time delta"
  have th: "theta (spherical s') = thetaDamper D (Fin w) (Fin g) delta (Fin pi)"
    unfolding s'_def w_def by (rule update_theta [OF assms(1-5)])
  from far have ne: "c \<noteq> g" by auto
  have go: "theta (goalSpherical s') = Fin g"
    using assms(4) ne assms(3)
    by (simp add: s'_def update_def isStationary_def strictEq_def Let_def moveCamera_def
        dispatchEvent_def)
  have wg: "\<bar>w - g\<bar> = \<bar>\<bar>c - g\<bar> - 2 * pi\<bar>"
    using far by (cases "c - g > 0") (auto simp add: w_def sgn_if abs_if)
  have less: "\<bar>w - g\<bar> < \<bar>c - g\<bar>"
    unfolding wg using far pi_gt_zero by (simp add: abs_if split: if_splits)
  have seam: "\<bar>w - g\<bar> < pi \<and> (w - g) * (c - g) < 0" if "\<bar>c - g\<bar> < 2 * pi"
  proof (cases "c - g > 0")
    case True
    then have "w - g = (c - g) - 2 * pi" by (simp add: w_def sgn_if)
    then show ?thesis using True that far by (simp add: mult_less_0_iff abs_if)
  next
    case False
    then have n: "c - g < 0" using far pi_gt_zero by (simp add: abs_if split: if_splits)
    then have "w - g = (c - g) + 2 * pi" by (simp add: w_def sgn_if)
    then show ?thesis using n that far by (simp add: mult_less_0_iff abs_if)
  qed
  have damped: "\<exists>c'. theta (spherical s') = Fin c' \<and> min w g \<le> c' \<and> c' \<le> max w g \<and>
       \<bar>c' - g\<bar> < \<bar>c - g\<bar> \<and> (\<bar>c - g\<bar> \<le> 2 * pi \<longrightarrow> (c' - g) * (c - g) \<le> 0)"
    if damp: "noOvershoot (thetaDamper D)"
  proof -
    obtain c' where c': "thetaDamper D (Fin w) (Fin g) delta (Fin pi) = Fin c'"
      and lo: "min w g \<le> c'" and hi: "c' \<le> max w g"
      using damp unfolding noOvershoot_def by blast
    have near: "\<bar>c' - g\<bar> \<le> \<bar>w - g\<bar>" using lo hi by (simp add: min_def max_def split: if_splits)
    have side: "(c' - g) * (c - g) \<le> 0" if "\<bar>c - g\<bar> \<le> 2 * pi"
    proof (cases "c - g > 0")
      case True
      then have "w \<le> g" using that by (simp add: w_def sgn_if)
      then have "c' - g \<le> 0" using hi by simp
      then show ?thesis using True by (simp add: mult_le_0_iff)
    next
      case False
      then have n: "c - g < 0" using far pi_gt_zero by (simp add: abs_if split: if_splits)
      then have "g \<le> w" using that by (simp add: w_def sgn_if)
      then have "0 \<le> c' - g" using lo by simp
      then show ?thesis using n by (simp add: mult_le_0_iff)
    qed
    show ?thesis using th c' lo hi near less side by auto
  qed
  show ?thesis
    unfolding Let_def w_def [symmetric] s'_def [symmetric]
    using th go wg less seam damped by blast
qed

text \<open>
  The witness is the example of the spec, with the dampers that go half of the way: the
  rendered azimuth \<open>3.0\<close> is first moved to \<open>3 - 2\<pi>\<close>, and half of the way from there to the
  goal \<open>-3.0\<close> is \<open>-\<pi>\<close>, on the seam; the long way would have led to \<open>0\<close>.
\<close>

theorem C6_seam_witness:
  "theta (spherical (update halfwayDampers seamState (Fin 0) (Fin 16))) = Fin (- pi) \<and>
   theta (goalSpherical (update halfwayDampers seamState (Fin 0) (Fin 16))) = Fin (- 3) \<and>
   (\<exists>c'. theta (spherical (update halfwayDampers seamState (Fin 0) (Fin 16))) = Fin c' \<and>
         3 - 2 * pi \<le> c' \<and> c' \<le> - 3)"
proof -
  have h: "\<not> isFinite (minimumAzimuthalAngle (opts seamState))"
    "\<not> isFinite (maximumAzimuthalAngle (opts seamState))"
    "theta (spherical seamState) = Fin 3"
    "theta (goalSpherical seamState) = Fin (- 3)"
    "pi < \<bar>3 - (- 3)\<bar>"
    using pi_less_4 by (simp_all add: seamState_def atRest_def DEFAULT_OPTIONS_def)
  have d: "thetaDamper halfwayDampers (Fin (3 - sgn (3 - (- 3)) * 2 * pi)) (Fin (- 3)) (Fin 16)
             (Fin pi) = Fin (- pi)"
    by (simp add: halfwayDampers_def)
  have m: "min (3 - 2 * pi) (- 3) = 3 - 2 * pi" "max (3 - 2 * pi) (- 3) = - 3"
    using pi_ge_3 by simp_all
  note t = C6_update_takes_the_short_way [OF h, of halfwayDampers "Fin 0" "Fin 16"]
  from t d
  have 1: "theta (spherical (update halfwayDampers seamState (Fin 0) (Fin 16))) = Fin (- pi)"
    and 2: "theta (goalSpherical (update halfwayDampers seamState (Fin 0) (Fin 16))) = Fin (- 3)"
    by (simp_all add: Let_def)
  from t halfway_noOvershoot
  have "\<exists>c'. theta (spherical (update halfwayDampers seamState (Fin 0) (Fin 16))) = Fin c' \<and>
         min (3 - sgn (3 - (- 3)) * 2 * pi) (- 3) \<le> c' \<and>
         c' \<le> max (3 - sgn (3 - (- 3)) * 2 * pi) (- 3)"
    unfolding Let_def by blast
  then have 3: "\<exists>c'. theta (spherical (update halfwayDampers seamState (Fin 0) (Fin 16))) = Fin c' \<and>
         3 - 2 * pi \<le> c' \<and> c' \<le> - 3"
    using m by simp
  from 1 2 3 show ?thesis by blast
qed

section \<open>C7: the touch intent is decided once\<close>

lemma gesture_andThen:
  assumes "gesture (final x) = g" and "\<And>a s'. gesture (final (f a s')) = gesture s'"
  shows "gesture (final (andThen x f)) = g"
  using assms by (cases x) simp_all

lemma gesture_setOrbit: "gesture (final (setOrbit s a b c)) = gesture s"
  by (simp add: setOrbit_def gesture_def Let_def split: sum.splits)

lemma gesture_setFieldOfView: "gesture (final (setFieldOfView s f)) = gesture s"
  by (simp add: setFieldOfView_def gesture_def split: sum.splits)

lemma gesture_adjustOrbit: "gesture (final (adjustOrbit s a b c)) = gesture s"
  unfolding adjustOrbit_def Let_def
  by (auto split: sum.splits intro!: gesture_andThen simp: gesture_setOrbit gesture_setFieldOfView)

lemma gesture_userAdjustOrbit: "gesture (final (userAdjustOrbit s a b c)) = gesture s"
  unfolding userAdjustOrbit_def
  by (rule gesture_andThen) (rule gesture_adjustOrbit, simp add: gesture_def dispatchEvent_def)

lemma gesture_handleSinglePointerMove: "gesture (final (handleSinglePointerMove s p)) = gesture s"
  unfolding handleSinglePointerMove_def Let_def
  by (simp add: gesture_userAdjustOrbit) (simp add: gesture_def dispatchEvent_def)

lemma gesture_rotate_step:
  "gesture (final (andThen (handleSinglePointerMove u p)
      (\<lambda>a s'. Returned () (s'\<lparr>lastTouches := x\<rparr>)))) = gesture u"
  by (rule gesture_andThen) (rule gesture_handleSinglePointerMove, simp add: gesture_def)

lemma gesture_zoom_step:
  "gesture (final (andThen (if c then userAdjustOrbit u x y z else Returned () u)
      (\<lambda>a s'. Returned () (s'\<lparr>lastTouches := l\<rparr>)))) = gesture u"
  by (rule gesture_andThen) (simp_all add: gesture_userAdjustOrbit, simp add: gesture_def)

text \<open>
  A touch move keeps \<open>touchMode\<close> and \<open>touchDecided\<close>, unless the gesture is an undecided
  rotation: then it may decide, for the rotation or for the scroll.
\<close>

lemma move_gesture:
  "gesture (final (onPointerMove s (Touch t))) = gesture s \<or>
   (touchMode s = Rotate \<and> \<not> touchDecided s \<and>
    (gesture (final (onPointerMove s (Touch t))) = (Rotate, True) \<or>
     gesture (final (onPointerMove s (Touch t))) = (Scroll, True)))"
  unfolding onPointerMove_def Let_def
  apply (simp add: gesture_rotate_step gesture_zoom_step
      split: touch_mode.splits option.splits list.splits)
  apply (auto simp add: gesture_def)
  done

lemma scroll_move: "touchMode s = Scroll \<Longrightarrow> final (onPointerMove s (Touch t)) = s"
  by (simp add: onPointerMove_def)

lemma scroll_moves: "touchMode s = Scroll \<Longrightarrow> touchMoves s tss = s"
  by (induction tss) (simp_all add: scroll_move)

lemma settled_changes:
  "touchMode s \<noteq> Rotate \<or> touchDecided s \<Longrightarrow> modeChanges s tss = 0"
proof (induction tss arbitrary: s)
  case Nil
  then show ?case by simp
next
  case (Cons t tss)
  have g: "gesture (final (onPointerMove s (Touch t))) = gesture s"
    using Cons.prems move_gesture [of s t] by auto
  then have "touchMode (final (onPointerMove s (Touch t))) = touchMode s"
    and "touchDecided (final (onPointerMove s (Touch t))) = touchDecided s"
    by (simp_all add: gesture_def)
  with Cons show ?case by simp
qed

lemma changes_le_1: "modeChanges s tss \<le> 1"
proof (induction tss arbitrary: s)
  case Nil
  then show ?case by simp
next
  case (Cons t tss)
  let ?s' = "final (onPointerMove s (Touch t))"
  consider (same) "gesture ?s' = gesture s"
    | (rot) "gesture ?s' = (Rotate, True)" "touchMode s = Rotate"
    | (scr) "gesture ?s' = (Scroll, True)" "touchMode s = Rotate"
    using move_gesture [of s t] by blast
  then show ?case
  proof cases
    case same
    then have "touchMode ?s' = touchMode s" by (simp add: gesture_def)
    with Cons.IH [of ?s'] show ?thesis by simp
  next
    case rot
    then have "touchMode ?s' = touchMode s" "touchDecided ?s'" by (simp_all add: gesture_def)
    with settled_changes [of ?s' tss] show ?thesis by simp
  next
    case scr
    then have "touchMode ?s' = Scroll" by (simp add: gesture_def)
    with settled_changes [of ?s' tss] show ?thesis by simp
  qed
qed

lemma down_gesture:
  "gesture (final (onPointerDown s (Touch ts))) = (startMode s ts, False)"
  by (simp add: onPointerDown_def Let_def handleSinglePointerDown_def gesture_def startMode_def
      split: list.splits)

lemma first_move_scroll:
  assumes "undecided s" and "alongPassThroughAxis s t"
  shows "onPointerMove s (Touch (t # rest)) =
           Returned () (s\<lparr>touchDecided := True, touchMode := Scroll\<rparr>)"
  using assms by (simp add: onPointerMove_def undecided_def alongPassThroughAxis_def Let_def)

lemma first_move_rotate:
  assumes "undecided s" and "\<not> alongPassThroughAxis s t"
  shows "gesture (final (onPointerMove s (Touch (t # rest)))) = (Rotate, True)"
  using assms
  by (simp add: onPointerMove_def undecided_def alongPassThroughAxis_def Let_def
      gesture_rotate_step) (simp add: gesture_def)

lemma decided_move:
  assumes "touchDecided s"
  shows "gesture (final (onPointerMove s (Touch t))) = gesture s"
  using assms move_gesture [of s t] by auto

lemma decided_moves:
  "touchDecided s \<Longrightarrow> gesture (touchMoves s tss) = gesture s"
proof (induction tss arbitrary: s)
  case Nil
  then show ?case by simp
next
  case (Cons t tss)
  have g: "gesture (final (onPointerMove s (Touch t))) = gesture s"
    using Cons.prems by (rule decided_move)
  then have "touchDecided (final (onPointerMove s (Touch t)))"
    using Cons.prems by (simp add: gesture_def)
  from Cons.IH [OF this] g show ?case by simp
qed

text \<open>
  C7, for any state \<open>s\<close>, touches \<open>ts\<close>, touch \<open>t\<close> and run of touch moves \<open>tss\<close>:

  \<^item> a touch start resets the intent: after \<open>onPointerDown\<close> on a touch event the mode is
    the start mode of its touches (\<open>rotate\<close>, unless there are two of them) and nothing is
    decided, whatever the mode and the decision of the gesture before;

  \<^item> the first touch move of an undecided gesture decides: where the touch has moved along
    the pass-through axis the gesture becomes a scroll, and that is all the move changes
    (no orbit adjustment); otherwise the gesture is locked to \<open>rotate\<close>;

  \<^item> once decided, the mode and the decision stay through every further touch move, so
    over any run of touch moves, from any state, the mode changes at most once;

  \<^item> once the gesture is a scroll, every further touch move of any direction leaves the
    whole state as it is, so no orbit adjustment is applied.
\<close>

theorem C7_touch_intent_decided_once:
  "gesture (final (onPointerDown s (Touch ts))) = (startMode s ts, False) \<and>
   (undecided s \<and> alongPassThroughAxis s t \<longrightarrow>
      onPointerMove s (Touch (t # rest)) =
        Returned () (s\<lparr>touchDecided := True, touchMode := Scroll\<rparr>)) \<and>
   (undecided s \<and> \<not> alongPassThroughAxis s t \<longrightarrow>
      gesture (final (onPointerMove s (Touch (t # rest)))) = (Rotate, True)) \<and>
   (touchDecided s \<longrightarrow> gesture (touchMoves s tss) = gesture s) \<and>
   modeChanges s tss \<le> 1 \<and>
   (touchDecided s \<longrightarrow> modeChanges s tss = 0) \<and>
   (touchMode s = Scroll \<longrightarrow> touchMoves s tss = s)"
  using down_gesture first_move_scroll first_move_rotate decided_moves changes_le_1
    settled_changes scroll_moves
  by simp

text \<open>
  The witness. On \<open>touchStarted\<close> (one finger down at \<open>(100, 100)\<close>, \<open>touchAction\<close> \<open>pan-y\<close>)
  nothing is decided; a first move down to \<open>(100, 150)\<close> makes the gesture a scroll and
  changes nothing else; a first move right to \<open>(150, 100)\<close> locks it to \<open>rotate\<close>. On
  \<open>scrollGesture\<close> the two horizontal moves that follow change nothing, and a new touch
  start resets the gesture to an undecided \<open>rotate\<close>.
\<close>

theorem C7_scroll_gesture_witness:
  "gesture touchStarted = (Rotate, False) \<and>
   onPointerMove touchStarted (Touch [\<lparr>clientX = Fin 100, clientY = Fin 150\<rparr>]) =
     Returned () (touchStarted\<lparr>touchDecided := True, touchMode := Scroll\<rparr>) \<and>
   gesture (final (onPointerMove touchStarted (Touch [\<lparr>clientX = Fin 150, clientY = Fin 100\<rparr>])))
     = (Rotate, True) \<and>
   gesture scrollGesture = (Scroll, True) \<and>
   modeChanges scrollGesture
     [[\<lparr>clientX = Fin 300, clientY = Fin 150\<rparr>], [\<lparr>clientX = Fin 500, clientY = Fin 150\<rparr>]] = 0 \<and>
   touchMoves scrollGesture
     [[\<lparr>clientX = Fin 300, clientY = Fin 150\<rparr>], [\<lparr>clientX = Fin 500, clientY = Fin 150\<rparr>]]
     = scrollGesture \<and>
   gesture (final (onPointerDown scrollGesture (Touch [\<lparr>clientX = Fin 100, clientY = Fin 100\<rparr>])))
     = (Rotate, False)"
proof -
  let ?start = "\<lparr>clientX = Fin 100, clientY = Fin 100\<rparr>"
  let ?down = "\<lparr>clientX = Fin 100, clientY = Fin 150\<rparr>"
  let ?right = "\<lparr>clientX = Fin 150, clientY = Fin 100\<rparr>"
  let ?later = "[[\<lparr>clientX = Fin 300, clientY = Fin 150\<rparr>], [\<lparr>clientX = Fin 500, clientY = Fin 150\<rparr>]]"
  have st: "touchStarted = final (onPointerDown (enableInteraction atRest) (Touch [?start]))"
    by (simp add: touchStarted_def deliver_def enableInteraction_def atRest_def)
  have sm: "startMode (enableInteraction atRest) [?start] = Rotate"
    "startMode scrollGesture [?start] = Rotate"
    by (simp_all add: startMode_def)
  have u: "undecided touchStarted"
    by (simp add: touchStarted_eq undecided_def canInteract_def atRest_def DEFAULT_OPTIONS_def)
  have a: "alongPassThroughAxis touchStarted ?down" "\<not> alongPassThroughAxis touchStarted ?right"
    by (simp_all add: touchStarted_eq alongPassThroughAxis_def atRest_def DEFAULT_OPTIONS_def)
  have m: "touchMode scrollGesture = Scroll" "touchDecided scrollGesture"
    by (simp_all add: scrollGesture_def deliver_def enableInteraction_def onPointerDown_def
        onPointerMove_def atRest_def handleSinglePointerDown_def canInteract_def
        DEFAULT_OPTIONS_def Let_def)
  from C7_touch_intent_decided_once [of "enableInteraction atRest" "[?start]" ?down "[]" "[]"]
  have 1: "gesture touchStarted = (Rotate, False)" by (simp add: st sm)
  from C7_touch_intent_decided_once [of touchStarted "[]" ?down "[]" "[]"] u a(1)
  have 2: "onPointerMove touchStarted (Touch [?down]) =
     Returned () (touchStarted\<lparr>touchDecided := True, touchMode := Scroll\<rparr>)" by blast
  from C7_touch_intent_decided_once [of touchStarted "[]" ?right "[]" "[]"] u a(2)
  have 3: "gesture (final (onPointerMove touchStarted (Touch [?right]))) = (Rotate, True)"
    by blast
  note scrolling = C7_touch_intent_decided_once [of scrollGesture "[?start]" ?down "[]" ?later]
  from scrolling m
  have 4: "modeChanges scrollGesture ?later = 0 \<and> touchMoves scrollGesture ?later = scrollGesture"
    by blast
  from scrolling
  have "gesture (final (onPointerDown scrollGesture (Touch [?start]))) =
      (startMode scrollGesture [?start], False)"
    by blast
  then have 5: "gesture (final (onPointerDown scrollGesture (Touch [?start]))) = (Rotate, False)"
    by (simp add: sm)
  have 6: "gesture scrollGesture = (Scroll, True)" using m by (simp add: gesture_def)
  from 1 2 3 4 5 6 show ?thesis by blast
qed

section \<open>C8: inverted bounds in applyOptions\<close>

lemma setOrbit_inverted:
  assumes "orbitBoundsInverted (opts s)"
  shows "\<exists>s'. setOrbit s a b r = Threw ConfigurationError s' \<and>
               goalSpherical s' = goalSpherical s \<and> goalLogFov s' = goalLogFov s \<and>
               opts s' = opts s"
  using assms
  by (auto simp add: orbitBoundsInverted_def setOrbit_def clamp_def Let_def)

lemma setOrbit_valid:
  assumes "\<not> orbitBoundsInverted (opts s)"
  shows "\<exists>ch s'. setOrbit s a b r = Returned ch s' \<and> opts s' = opts s \<and>
                  goalLogFov s' = goalLogFov s"
  using assms
  by (auto simp add: orbitBoundsInverted_def setOrbit_def clamp_def Let_def)

lemma setFieldOfView_inverted:
  assumes "maximumFieldOfView (opts s) < minimumFieldOfView (opts s)"
  shows "setFieldOfView s f = Threw ConfigurationError s"
  using assms by (simp add: setFieldOfView_def clamp_def)

text \<open>
  C8: when the merged configuration has \<open>min > max\<close> on a bounded axis, \<open>applyOptions\<close>
  throws the configuration error to its caller. The goal \<open>logFov\<close> is what it was. If the
  inverted axis is the azimuth, the polar angle or the radius, the goal orbit is what it
  was too; if only the field-of-view bounds are inverted, the goal orbit is the one
  \<open>setOrbit()\<close> has re-clamped under the orbit bounds, which are then not inverted. The
  options keep the merged configuration.
\<close>

theorem C8_applyOptions_reports_inverted_bounds:
  assumes "boundsInverted (assignOptions (opts s) p)"
  shows "\<exists>s'. applyOptions s p = Threw ConfigurationError s' \<and>
           goalLogFov s' = goalLogFov s \<and>
           opts s' = assignOptions (opts s) p \<and>
           (if orbitBoundsInverted (assignOptions (opts s) p)
            then goalSpherical s' = goalSpherical s
            else goalSpherical s' =
                   goalSpherical (final (setOrbit (s\<lparr>opts := assignOptions (opts s) p\<rparr>)
                                            None None None)))"
proof (cases "orbitBoundsInverted (assignOptions (opts s) p)")
  case True
  let ?s1 = "s\<lparr>opts := assignOptions (opts s) p\<rparr>"
  from True have "orbitBoundsInverted (opts ?s1)" by simp
  from setOrbit_inverted [OF this, of None None None]
  obtain s' where "setOrbit ?s1 None None None = Threw ConfigurationError s'"
    "goalSpherical s' = goalSpherical ?s1" "goalLogFov s' = goalLogFov ?s1"
    "opts s' = opts ?s1" by blast
  with True show ?thesis by (simp add: applyOptions_def)
next
  case False
  let ?s1 = "s\<lparr>opts := assignOptions (opts s) p\<rparr>"
  from False have "\<not> orbitBoundsInverted (opts ?s1)" by simp
  from setOrbit_valid [OF this, of None None None]
  obtain ch s' where r: "setOrbit ?s1 None None None = Returned ch s'"
    and o: "opts s' = opts ?s1" and f: "goalLogFov s' = goalLogFov ?s1" by blast
  from False assms have "maximumFieldOfView (opts s') < minimumFieldOfView (opts s')"
    by (simp add: boundsInverted_def o)
  from setFieldOfView_inverted [OF this]
  show ?thesis using False r f o by (simp add: applyOptions_def)
qed

text \<open>
  The witness: \<open>{minimumRadius: 5, maximumRadius: 2}\<close> applied to the controller at rest.
\<close>

theorem C8_inverted_radius_witness:
  "\<exists>s'. applyOptions atRest invertedRadius = Threw ConfigurationError s' \<and>
         goalLogFov s' = goalLogFov atRest \<and> goalSpherical s' = goalSpherical atRest"
proof -
  have "boundsInverted (assignOptions (opts atRest) invertedRadius)"
    "orbitBoundsInverted (assignOptions (opts atRest) invertedRadius)"
    by (simp_all add: boundsInverted_def orbitBoundsInverted_def assignOptions_def
        invertedRadius_def noOptions_def atRest_def DEFAULT_OPTIONS_def)
  with C8_applyOptions_reports_inverted_bounds [of atRest invertedRadius]
  show ?thesis by auto
qed

section \<open>C9: the polar angle stays off the poles\<close>

lemma safePolar_Fin: "safePolar a \<Longrightarrow> \<exists>x. a = Fin x"
  by (cases a) (simp_all add: safePolar_def)

lemma makeSafe_phi:
  "phi (makeSafe sp) = Math_max (Fin EPS) (Math_min (Fin (pi - EPS)) (phi sp))"
  by (simp add: makeSafe_def)

lemma safePolar_clip:
  "a \<noteq> NaN \<Longrightarrow> safePolar (Math_max (Fin EPS) (Math_min (Fin (pi - EPS)) a))"
  using EPS_bounds pi_ge_two
  by (cases a) (simp_all add: safePolar_def Math_max_def Math_min_def)

lemma makeSafe_safe: "phi sp \<noteq> NaN \<Longrightarrow> safePolar (phi (makeSafe sp))"
  by (simp add: makeSafe_phi safePolar_clip)

lemma setOrbit_invariant:
  assumes "polarInvariant s" and "b \<noteq> Some NaN"
  shows "polarInvariant (final (setOrbit s a b r))"
proof -
  obtain x where x: "phi (goalSpherical s) = Fin x"
    using assms(1) safePolar_Fin by (auto simp add: polarInvariant_def polarSafe_def)
  have gp: "orKeep b (phi (goalSpherical s)) \<noteq> NaN"
    using assms(2) x by (cases b) simp_all
  have cur: "phi (spherical (final (setOrbit s a b r))) = phi (spherical s)"
    by (simp add: setOrbit_current split: sum.splits)
  have goal: "safePolar (phi (goalSpherical (final (setOrbit s a b r))))"
    using assms(1) gp
    by (auto simp add: setOrbit_def Let_def clamp_def polarInvariant_def polarSafe_def
        makeSafe_safe Math_minmax_NaN)
  show ?thesis
    using assms(1) cur goal
    by (simp add: polarInvariant_def polarSafe_def setOrbit_keeps_opts)
qed

lemma setFieldOfView_invariant:
  "polarInvariant s \<Longrightarrow> polarInvariant (final (setFieldOfView s f))"
  by (simp add: polarInvariant_def polarSafe_def setFieldOfView_def split: sum.splits)

lemma invariant_andThen:
  assumes "polarInvariant (final x)"
    and "\<And>a s'. polarInvariant s' \<Longrightarrow> polarInvariant (final (f a s'))"
  shows "polarInvariant (final (andThen x f))"
  using assms by (cases x) simp_all

lemma setRadius_invariant:
  assumes "polarInvariant s"
  shows "polarInvariant (final (setRadius s r))"
proof -
  have "polarInvariant (s\<lparr>goalSpherical := (goalSpherical s)\<lparr>radius := r\<rparr>\<rparr>)"
    using assms by (simp add: polarInvariant_def polarSafe_def)
  then have "polarInvariant
      (final (setOrbit (s\<lparr>goalSpherical := (goalSpherical s)\<lparr>radius := r\<rparr>\<rparr>) None None None))"
    by (rule setOrbit_invariant) simp
  then show ?thesis unfolding setRadius_def by (rule invariant_andThen) simp
qed

lemma applyOptions_invariant:
  assumes "polarInvariant s"
    and "p_minimumPolarAngle p \<noteq> Some NaN" and "p_maximumPolarAngle p \<noteq> Some NaN"
  shows "polarInvariant (final (applyOptions s p))"
proof -
  have "minimumPolarAngle (assignOptions (opts s) p) \<noteq> NaN"
    using assms by (cases "p_minimumPolarAngle p") (simp_all add: assignOptions_def polarInvariant_def)
  moreover have "maximumPolarAngle (assignOptions (opts s) p) \<noteq> NaN"
    using assms by (cases "p_maximumPolarAngle p") (simp_all add: assignOptions_def polarInvariant_def)
  ultimately have "polarInvariant (s\<lparr>opts := assignOptions (opts s) p\<rparr>)"
    using assms(1) by (simp add: polarInvariant_def polarSafe_def)
  then have "polarInvariant
      (final (setOrbit (s\<lparr>opts := assignOptions (opts s) p\<rparr>) None None None))"
    by (rule setOrbit_invariant) simp
  then show ?thesis
    unfolding applyOptions_def by (rule invariant_andThen) (rule setFieldOfView_invariant)
qed

lemma adjustOrbit_invariant:
  assumes "polarInvariant s" and "deltaPhi \<noteq> NaN"
  shows "polarInvariant (final (adjustOrbit s deltaTheta deltaPhi deltaZoom))"
proof -
  obtain x where x: "phi (goalSpherical s) = Fin x"
    using assms(1) safePolar_Fin by (auto simp add: polarInvariant_def polarSafe_def)
  have gp: "Some (phi (goalSpherical s) - deltaPhi) \<noteq> Some NaN"
    using assms(2) x by (simp add: Fin_minus_NaN)
  show ?thesis
    unfolding adjustOrbit_def Let_def
    by (auto split: sum.splits
        intro!: invariant_andThen setOrbit_invariant [OF assms(1) gp] setFieldOfView_invariant
        simp: assms(1))
qed

lemma update_invariant:
  assumes "polarInvariant s" and "numericDamper (phiDamper D)"
  shows "polarInvariant (update D s time delta)"
proof (cases "isStationary s")
  case True
  then show ?thesis using assms by (simp add: update_def)
next
  case False
  obtain x g where x: "phi (spherical s) = Fin x" and g: "phi (goalSpherical s) = Fin g"
    using assms(1) safePolar_Fin by (auto simp add: polarInvariant_def polarSafe_def) blast
  have "phiDamper D (Fin x) (Fin g) delta (maximumPolarAngle (opts s)) \<noteq> NaN"
    using assms(2) by (simp add: numericDamper_def)
  then have "safePolar (Math_max (Fin EPS) (Math_min (Fin (pi - EPS))
      (phiDamper D (Fin x) (Fin g) delta (maximumPolarAngle (opts s)))))"
    by (rule safePolar_clip)
  then show ?thesis
    using False assms(1) x g
    by (simp add: update_def Let_def moveCamera_def dispatchEvent_def polarInvariant_def
        polarSafe_def makeSafe_phi)
qed

lemma perform_invariant:
  assumes "polarInvariant s" and "numericDamper (phiDamper D)" and "numeric c"
  shows "polarInvariant (perform D s c)"
  using assms
  by (cases c)
    (simp_all add: setOrbit_invariant adjustOrbit_invariant setRadius_invariant
      setFieldOfView_invariant applyOptions_invariant update_invariant)

lemma perform_all_invariant:
  assumes "numericDamper (phiDamper D)"
  shows "polarInvariant s \<Longrightarrow> list_all numeric cs \<Longrightarrow> polarInvariant (foldl (perform D) s cs)"
  by (induction cs arbitrary: s) (simp_all add: perform_invariant assms)

lemma constructor_invariant:
  assumes "numericDamper (phiDamper D)"
  shows "polarInvariant (final (constructor D fov height active))"
proof -
  let ?s0 = "initialFields fov height active"
  let ?goal = "\<lparr>radius = Fin 1, phi = Fin (pi / 2), theta = Fin 0\<rparr>"
  have s1: "setOrbit ?s0 (Some (Fin 0)) (Some (Fin (pi / 2))) (Some (Fin 1)) =
      Returned True (?s0\<lparr>goalSpherical := ?goal\<rparr>)"
    using pi_ge_two EPS_bounds
    by (simp add: initialFields_def setOrbit_def DEFAULT_OPTIONS_def clamp_def
        newSpherical_def Math_max_def Math_min_def Let_def wrapAngle_Fin strictEq_def
        makeSafe_def)
  have s2: "setFieldOfView (?s0\<lparr>goalSpherical := ?goal\<rparr>) (Fin 100) =
      Returned () (?s0\<lparr>goalSpherical := ?goal\<rparr>)"
    by (simp add: initialFields_def setFieldOfView_def DEFAULT_OPTIONS_def clamp_def
        Math_max_def Math_min_def)
  have c: "final (constructor D fov height active) =
      update D (?s0\<lparr>goalSpherical := ?goal\<rparr>) (Fin 0) (SETTLING_TIME D)"
    by (simp add: constructor_def s1 s2 jumpToGoal_def)
  have "phiDamper D (Fin 0) (Fin (pi / 2)) (SETTLING_TIME D) (Fin (7 * pi / 8)) \<noteq> NaN"
    using assms by (simp add: numericDamper_def)
  then have "safePolar (Math_max (Fin EPS) (Math_min (Fin (pi - EPS))
      (phiDamper D (Fin 0) (Fin (pi / 2)) (SETTLING_TIME D) (Fin (7 * pi / 8)))))"
    by (rule safePolar_clip)
  moreover have "safePolar (Fin (pi / 2))"
    using EPS_bounds pi_ge_two by (simp add: safePolar_def)
  ultimately show ?thesis
    unfolding c using pi_ge_two
    by (simp add: update_def isStationary_def strictEq_def Let_def moveCamera_def
        dispatchEvent_def initialFields_def newSpherical_def DEFAULT_OPTIONS_def
        polarInvariant_def polarSafe_def makeSafe_phi)
qed

text \<open>
  C9 states that the polar angles stay strictly inside \<open>(\<epsilon>, \<pi> - \<epsilon>)\<close>. \<open>makeSafe\<close> is a clamp:
  a polar angle below \<open>\<epsilon>\<close> becomes \<open>\<epsilon>\<close> itself. With \<open>minimumPolarAngle = 0\<close>,
  \<open>setOrbit(0, 0, 1)\<close> leaves the goal polar angle at exactly \<open>\<epsilon>\<close>.
\<close>

theorem C9_polar_at_epsilon_counterexample:
  "\<not> strictlySafePolar
        (phi (goalSpherical (final (setOrbit polarZero (Some (Fin 0)) (Some (Fin 0)) (Some (Fin 1))))))"
  by (simp add: setOrbit_polarZero strictlySafePolar_def)

text \<open>
  C9, amended: after the constructor and after any sequence of calls of \<open>setOrbit\<close>,
  \<open>adjustOrbit\<close>, \<open>setRadius\<close>, \<open>setFieldOfView\<close>, \<open>applyOptions\<close> and \<open>update\<close>, the goal polar
  angle and the rendered polar angle lie in the closed interval \<open>[\<epsilon>, \<pi> - \<epsilon>]\<close>, hence strictly
  between the poles \<open>0\<close> and \<open>\<pi>\<close>, provided no call passes \<open>NaN\<close> as a polar angle, polar delta
  or polar bound and the polar damper returns no \<open>NaN\<close> for finite values. This holds also
  for the state a call leaves when it throws.
\<close>

theorem C9_polar_stays_between_the_poles:
  assumes "numericDamper (phiDamper D)" and "list_all numeric cs"
  shows "polarSafe (foldl (perform D) (final (constructor D fov height active)) cs)"
  using perform_all_invariant [OF assms(1) constructor_invariant [OF assms(1)] assms(2)]
  by (simp add: polarInvariant_def)

text \<open>
  The witness: the controller is built with the settled dampers; the polar bound is
  lowered to \<open>0\<close>, the orbit is sent to the pole, pushed further by \<open>adjustOrbit\<close>, and a frame
  is rendered.
\<close>

theorem C9_polar_witness:
  "polarSafe (foldl (perform settledDampers)
     (final (constructor settledDampers (Fin 45) (Fin 600) False))
     [ApplyOptions (noOptions\<lparr>p_minimumPolarAngle := Some (Fin 0)\<rparr>),
      SetOrbit (Some (Fin 0)) (Some (Fin 0)) (Some (Fin 1)),
      AdjustOrbit (Fin 0) (Fin 1) (Fin 0),
      Update (Fin 0) (Fin 16)])"
proof -
  have d: "numericDamper (phiDamper settledDampers)"
    by (simp add: numericDamper_def settledDampers_def)
  have n: "list_all numeric
     [ApplyOptions (noOptions\<lparr>p_minimumPolarAngle := Some (Fin 0)\<rparr>),
      SetOrbit (Some (Fin 0)) (Some (Fin 0)) (Some (Fin 1)),
      AdjustOrbit (Fin 0) (Fin 1) (Fin 0),
      Update (Fin 0) (Fin 16)]"
    by (simp add: noOptions_def)
  from C9_polar_stays_between_the_poles [OF d n] show ?thesis .
qed

section \<open>C10: what setOrbit writes to the rendered state\<close>

text \<open>
  C10 speaks of every call of \<open>setOrbit\<close> with an unbounded azimuth. Where the requested
  azimuth is not finite, the rewrite is no turn: on the controller at rest (rendered
  azimuth \<open>0\<close>) \<open>setOrbit(Infinity)\<close> returns and leaves the rendered azimuth
  \<open>wrapAngle(0 - Infinity) + Infinity\<close>, which is \<open>NaN\<close>, and \<open>0 + 2\<pi>k\<close> for no \<open>k\<close>.
\<close>

theorem C10_infinite_azimuth_counterexample:
  "returned (setOrbit atRest (Some PosInf) None None) \<and>
   theta (spherical (final (setOrbit atRest (Some PosInf) None None))) = NaN \<and>
   \<not> (\<exists>k::int. theta (spherical (final (setOrbit atRest (Some PosInf) None None)))
                   = theta (spherical atRest) + Fin (2 * pi * of_int k))"
proof -
  have w: "wrapAngle NegInf = NaN" by (simp add: wrapAngle_def Let_def minus_num_def)
  have r: "returned (setOrbit atRest (Some PosInf) None None)"
    using pi_ge_two
    by (simp add: atRest_def DEFAULT_OPTIONS_def setOrbit_def clamp_def Math_max_def
        Math_min_def Let_def)
  have c: "clamp PosInf NegInf PosInf = Inr PosInf"
    by (simp add: clamp_def Math_max_def Math_min_def)
  have t: "theta (spherical (final (setOrbit atRest (Some PosInf) None None))) = NaN"
    using c w by (simp add: setOrbit_current atRest_def DEFAULT_OPTIONS_def minus_num_def)
  show ?thesis using r t by (simp add: atRest_def)
qed

text \<open>
  C10, amended: with the azimuth unbounded (\<open>minimumAzimuthalAngle = -Infinity\<close>,
  \<open>maximumAzimuthalAngle = Infinity\<close>), a finite rendered azimuth \<open>c\<close> and a finite requested
  azimuth \<open>t\<close> (the argument, or the goal azimuth when the argument is left out), every call
  of \<open>setOrbit\<close>, whatever it returns and also when it throws, leaves the rendered azimuth
  at \<open>c + 2\<pi>k\<close> for an integer \<open>k\<close>, within \<open>\<pi>\<close> of \<open>t\<close>, and leaves the rendered polar angle,
  radius and \<open>logFov\<close> as they were; when the call returns, \<open>t\<close> is the new goal azimuth.
  The multiple is exact in exact arithmetic.
\<close>

theorem C10_setOrbit_rewrites_azimuth_by_turns:
  assumes "minimumAzimuthalAngle (opts s) = NegInf"
    and "maximumAzimuthalAngle (opts s) = PosInf"
    and "theta (spherical s) = Fin c"
    and "orKeep a (theta (goalSpherical s)) = Fin t"
  shows "\<exists>k::int.
           theta (spherical (final (setOrbit s a b r))) = Fin (c + 2 * pi * of_int k) \<and>
           \<bar>c + 2 * pi * of_int k - t\<bar> \<le> pi \<and>
           phi (spherical (final (setOrbit s a b r))) = phi (spherical s) \<and>
           radius (spherical (final (setOrbit s a b r))) = radius (spherical s) \<and>
           logFov (final (setOrbit s a b r)) = logFov s \<and>
           (returned (setOrbit s a b r) \<longrightarrow>
              theta (goalSpherical (final (setOrbit s a b r))) = Fin t)"
proof -
  obtain y k where w: "wrapAngle (Fin (c - t)) = Fin y" and lo: "- pi \<le> y" and hi: "y < pi"
    and y: "y = (c - t) + 2 * pi * of_int (k::int)"
    by (rule wrapAngle_finite)
  have sp: "spherical (final (setOrbit s a b r)) = (spherical s)\<lparr>theta := Fin (y + t)\<rparr>"
    using assms w by (simp add: setOrbit_current clamp_unbounded)
  have g: "theta (goalSpherical (final (setOrbit s a b r))) = Fin t"
    if "returned (setOrbit s a b r)"
  proof -
    from that obtain ch s' where r: "setOrbit s a b r = Returned ch s'"
      by (cases "setOrbit s a b r") simp_all
    from setOrbit_goal_theta [OF r] assms show ?thesis
      by (simp add: r clamp_unbounded)
  qed
  have "y + t = c + 2 * pi * of_int k" using y by simp
  moreover have "\<bar>c + 2 * pi * of_int k - t\<bar> \<le> pi" using y lo hi by simp
  ultimately show ?thesis using sp g by (auto simp add: setOrbit_keeps_fov)
qed

text \<open>
  The witness: the controller at rest (azimuth \<open>0\<close>, unbounded) is sent to the azimuth \<open>5\<close>.
\<close>

theorem C10_setOrbit_witness:
  "\<exists>k::int.
     theta (spherical (final (setOrbit atRest (Some (Fin 5)) None None)))
       = Fin (0 + 2 * pi * of_int k) \<and>
     \<bar>0 + 2 * pi * of_int k - 5\<bar> \<le> pi \<and>
     phi (spherical (final (setOrbit atRest (Some (Fin 5)) None None)))
       = phi (spherical atRest) \<and>
     radius (spherical (final (setOrbit atRest (Some (Fin 5)) None None)))
       = radius (spherical atRest) \<and>
     logFov (final (setOrbit atRest (Some (Fin 5)) None None)) = logFov atRest \<and>
     theta (goalSpherical (final (setOrbit atRest (Some (Fin 5)) None None))) = Fin 5"
proof -
  have h: "minimumAzimuthalAngle (opts atRest) = NegInf"
    "maximumAzimuthalAngle (opts atRest) = PosInf"
    "theta (spherical atRest) = Fin 0"
    "orKeep (Some (Fin 5)) (theta (goalSpherical atRest)) = Fin 5"
    by (simp_all add: atRest_def DEFAULT_OPTIONS_def)
  have r: "returned (setOrbit atRest (Some (Fin 5)) None None)"
    using pi_ge_two
    by (simp add: atRest_def DEFAULT_OPTIONS_def setOrbit_def clamp_def Math_max_def
        Math_min_def Let_def)
  from C10_setOrbit_rewrites_azimuth_by_turns [OF h, of None None] r
  show ?thesis by blast
qed

end
